theory Spec2Isabelle
  imports Complex_Main "HOL-Library.Log_Nat" "HOL-Library.Sublist"
begin

section \<open>Be-Humming: quality search and best-of selection\<close>

text \<open>
  A shallow embedding of the search and selection code of Be-Humming
  (\<^verbatim>\<open>mods/hybrid_perceptual.py\<close>, \<^verbatim>\<open>mods/jpeg_binary_search.py\<close>,
  \<^verbatim>\<open>mods/perceptual.py\<close>, \<^verbatim>\<open>utils/shell.py\<close>, \<^verbatim>\<open>utils/metrics.py\<close>).
  External encoders, Pillow and the metric libraries are oracles collected in an
  environment record; the file system is an explicit state; every Python exception the
  modelled state can cause is a value of a sum type.
\<close>

subsection \<open>Python floats, as far as the code compares them\<close>

text \<open>
  The code never computes with the scores, it only compares them and tests their truth
  value. A float is therefore a real number or one of the three special values, and the
  comparisons follow IEEE 754 as Python does: every comparison with NaN is false.
\<close>

datatype pyfloat = Fin real | PosInf | NegInf | NaN

fun py_le :: "pyfloat \<Rightarrow> pyfloat \<Rightarrow> bool" where
  "py_le NaN _ = False"
| "py_le _ NaN = False"
| "py_le NegInf _ = True"
| "py_le _ PosInf = True"
| "py_le (Fin a) (Fin b) = (a \<le> b)"
| "py_le PosInf _ = False"
| "py_le (Fin a) NegInf = False"

definition py_ge :: "pyfloat \<Rightarrow> pyfloat \<Rightarrow> bool" where
  "py_ge a b = py_le b a"

definition truthy :: "pyfloat \<Rightarrow> bool" where
  \<comment> \<open>\<^verbatim>\<open>bool(x)\<close> of a float: false exactly for zero.\<close>
  "truthy x = (x \<noteq> Fin 0)"

subsection \<open>Arguments and metrics of the hybrid mod\<close>

datatype run_mode = Jpeg | Best

record args =
  mode :: run_mode
  min_q :: int
  max_q :: int
  target_psnr :: pyfloat
  use_ssim :: bool
  target_ssim :: pyfloat
  use_butter :: bool
  target_butter :: pyfloat
  keep_exif :: bool

text \<open>The dictionary \<^verbatim>\<open>{"psnr": .., "ssim": .., "butter": ..}\<close>; \<open>None\<close> is Python's
  \<^verbatim>\<open>None\<close> (metric unavailable).\<close>

record metrics =
  psnr :: "pyfloat option"
  ssim :: "pyfloat option"
  butter :: "pyfloat option"

definition or_0 :: "pyfloat option \<Rightarrow> pyfloat" where
  \<comment> \<open>\<^verbatim>\<open>m.get("psnr") or 0\<close>: \<^verbatim>\<open>None\<close> and \<^verbatim>\<open>0.0\<close> are both falsy.\<close>
  "or_0 v = (case v of None \<Rightarrow> Fin 0 | Some x \<Rightarrow> if truthy x then x else Fin 0)"

definition passes_threshold :: "args \<Rightarrow> metrics \<Rightarrow> bool" where
  \<comment> \<open>\<^verbatim>\<open>binary_search_quality\<close>, lines 66 to 72.\<close>
  "passes_threshold a m =
     (if truthy (target_butter a) \<and> butter m \<noteq> None
        then py_le (the (butter m)) (target_butter a)
      else if use_ssim a \<and> ssim m \<noteq> None
        then py_ge (the (ssim m)) (target_ssim a)
      else py_ge (or_0 (psnr m)) (target_psnr a))"

subsection \<open>Files, paths and the exceptions the file system raises\<close>

text \<open>
  A path is a directory and a file name. The directories of a run are the input
  directory, the output directory, the directories \<^verbatim>\<open>tempfile.mkdtemp\<close> creates
  (prefix \<^verbatim>\<open>work_\<close> or \<^verbatim>\<open>search_\<close>, numbered in creation order), the subdirectories
  \<^verbatim>\<open>d / name\<close> of these and, for a string that is used as a path but names nothing,
  \<open>Elsewhere\<close>. A file is its bytes.
\<close>

datatype dir = InputDir | OutputDir | WorkDir nat | SearchDir nat | Elsewhere | Sub dir string

type_synonym path = "dir \<times> string"

type_synonym bytes = "nat list"

datatype arg = Str string | IntArg int | PathArg path

text \<open>The state: the files, the counter of \<^verbatim>\<open>mkdtemp\<close> and the child processes
  killed so far (by their command lines).\<close>

record world =
  files :: "path \<rightharpoonup> bytes"
  tmp_next :: nat
  killed :: "arg list list"

datatype exn =
    FileNotFoundError path
  | SameFileError path
  | IndexError
  | OtherException string

definition stat_size :: "world \<Rightarrow> path \<Rightarrow> exn + nat" where
  \<comment> \<open>\<^verbatim>\<open>Path(p).stat().st_size\<close>\<close>
  "stat_size w p = (case files w p of None \<Rightarrow> Inl (FileNotFoundError p) | Some b \<Rightarrow> Inr (length b))"

definition shutil_move :: "path \<Rightarrow> path \<Rightarrow> world \<Rightarrow> (exn + unit) \<times> world" where
  "shutil_move src dst w =
     (case files w src of
        None \<Rightarrow> (Inl (FileNotFoundError src), w)
      | Some b \<Rightarrow> (Inr (), w\<lparr>files := ((files w)(src := None))(dst \<mapsto> b)\<rparr>))"

definition shutil_copy2 :: "path \<Rightarrow> path \<Rightarrow> world \<Rightarrow> (exn + unit) \<times> world" where
  "shutil_copy2 src dst w =
     (if src = dst then (Inl (SameFileError src), w)
      else case files w src of
        None \<Rightarrow> (Inl (FileNotFoundError src), w)
      | Some b \<Rightarrow> (Inr (), w\<lparr>files := (files w)(dst \<mapsto> b)\<rparr>))"

definition rmtree :: "dir \<Rightarrow> world \<Rightarrow> world" where
  \<comment> \<open>\<^verbatim>\<open>shutil.rmtree(d, ignore_errors=True)\<close>\<close>
  "rmtree d w = w\<lparr>files := (\<lambda>p. if fst p = d then None else files w p)\<rparr>"

definition mkdtemp :: "(nat \<Rightarrow> dir) \<Rightarrow> world \<Rightarrow> dir \<times> world" where
  \<comment> \<open>\<^verbatim>\<open>tempfile.mkdtemp(prefix=..)\<close>: the prefix is the constructor.\<close>
  "mkdtemp pre w = (pre (tmp_next w), w\<lparr>tmp_next := Suc (tmp_next w)\<rparr>)"

subsection \<open>Formatting integers\<close>

definition digit_char :: "nat \<Rightarrow> char" where
  "digit_char d = char_of (48 + d)"

function str_nat :: "nat \<Rightarrow> string" where
  "str_nat n = (if n < 10 then [digit_char n] else str_nat (n div 10) @ [digit_char (n mod 10)])"
  by pat_completeness auto
termination
  by (relation "measure id") auto

declare str_nat.simps [simp del]

definition str_int :: "int \<Rightarrow> string" where
  \<comment> \<open>\<^verbatim>\<open>str(i)\<close>, as the f-strings of the file names use it.\<close>
  "str_int i = (if i < 0 then CHR ''-'' # str_nat (nat (- i)) else str_nat (nat i))"

subsection \<open>The environment: external tools and libraries\<close>

text \<open>
  What \<^verbatim>\<open>subprocess.Popen\<close> and \<^verbatim>\<open>communicate\<close> do for a command: the child exits
  with a return code, standard output and standard error, or the call times out, or
  the executable is missing, or another exception is raised.
\<close>

datatype proc_outcome =
    Exited int string string
  | TimedOut
  | NotFound
  | Failed string

datatype pil_outcome = Saved bytes | Raised string

datatype resize_outcome = Resized bytes | NotResized | ResizeRaised string

text \<open>
  The oracles of one run. A command's behaviour is determined by its command line and
  timeout: its outcome, and the bytes it leaves at its output path (if any). Pillow's
  \<^verbatim>\<open>Image.open(..).save(.., format, quality)\<close> is determined by the format, the
  source bytes, the quality and the EXIF switch. The metric libraries are functions of
  the two files' bytes; \<open>None\<close> is an exception raised inside them or a missing library.
  The text of a path, as \<^verbatim>\<open>repr\<close> prints it between the quotes, is given by the
  command line and the platform. \<^verbatim>\<open>Image.thumbnail\<close> and \<^verbatim>\<open>save\<close> are determined by the
  source bytes and the bound (\<open>NotResized\<close>: the image is within the bound); OpenCV is
  installed or not, and its SSIM is a function of the two files' bytes (\<open>None\<close>: a file
  that cannot be read, or an exception).
\<close>

record env =
  popen :: "arg list \<Rightarrow> nat \<Rightarrow> proc_outcome \<times> bytes option"
  pil_save :: "string \<Rightarrow> bytes \<Rightarrow> int \<Rightarrow> bool \<Rightarrow> pil_outcome"
  pil_resize_width :: "bytes \<Rightarrow> resize_outcome"
  psnr_of :: "bytes \<Rightarrow> bytes \<Rightarrow> pyfloat option"
  ssim_of :: "bytes \<Rightarrow> bytes \<Rightarrow> pyfloat option"
  first_number :: "string \<Rightarrow> pyfloat option"
  path_text :: "path \<Rightarrow> string"
  pil_thumbnail :: "bytes \<Rightarrow> int \<Rightarrow> resize_outcome"
  have_cv2 :: bool
  ssim_cv2_of :: "bytes \<Rightarrow> bytes \<Rightarrow> pyfloat option"

subsection \<open>\<^verbatim>\<open>utils/shell.py\<close>: \<^verbatim>\<open>run_cmd\<close>\<close>

text \<open>The second component of the pair \<^verbatim>\<open>run_cmd\<close> and the Pillow adapters return:
  the f-string that was built, with the values it interpolates.\<close>

datatype msg =
    NoNote
  | FullOutput string
  | CommandFailed int arg string
  | ExpectedOutputNotProduced path string
  | CommandTimedOut nat arg
  | CommandNotFound arg
  | UnexpectedError exn
  | PillowNote string

definition index0 :: "arg list \<Rightarrow> exn + arg" where
  \<comment> \<open>\<^verbatim>\<open>cmd[0]\<close>\<close>
  "index0 cmd = (case cmd of [] \<Rightarrow> Inl IndexError | c # _ \<Rightarrow> Inr c)"

definition child_writes :: "bytes option \<Rightarrow> path list \<Rightarrow> world \<Rightarrow> world" where
  \<comment> \<open>The child process leaves its bytes at each of its output paths.\<close>
  "child_writes produced ps w =
     (case produced of
        None \<Rightarrow> w
      | Some b \<Rightarrow> w\<lparr>files := (\<lambda>p. if p \<in> set ps then Some b else files w p)\<rparr>)"

definition missing_output :: "world \<Rightarrow> path list \<Rightarrow> path option" where
  \<comment> \<open>The first \<^verbatim>\<open>p\<close> with \<^verbatim>\<open>not Path(p).exists() or Path(p).stat().st_size == 0\<close>.\<close>
  "missing_output w ps =
     (case filter (\<lambda>p. case files w p of None \<Rightarrow> True | Some b \<Rightarrow> length b = 0) ps of
        [] \<Rightarrow> None
      | p # _ \<Rightarrow> Some p)"

text \<open>
  The exceptions of the \<^verbatim>\<open>try\<close> body: \<open>Inl None\<close> is \<^verbatim>\<open>subprocess.TimeoutExpired\<close>,
  \<open>Inl (Some e)\<close> any other exception. \<^verbatim>\<open>Popen\<close> on an empty command list raises
  \<^verbatim>\<open>IndexError\<close> before any process exists.
\<close>

definition run_cmd_body ::
  "env \<Rightarrow> arg list \<Rightarrow> path list option \<Rightarrow> nat \<Rightarrow> world \<Rightarrow> (exn option + bool \<times> msg) \<times> world" where
  "run_cmd_body e cmd expected_outpaths timeout w =
     (if cmd = [] then (Inl (Some IndexError), w)
      else
        let (outcome, produced) = popen e cmd timeout;
            w' = child_writes produced (case expected_outpaths of None \<Rightarrow> [] | Some ps \<Rightarrow> ps) w
        in case outcome of
             TimedOut \<Rightarrow> (Inl None, w')
           | NotFound \<Rightarrow> (Inl (Some (FileNotFoundError (Elsewhere, []))), w')
           | Failed s \<Rightarrow> (Inl (Some (OtherException s)), w')
           | Exited returncode out err \<Rightarrow>
               (let full_output = out @ err in
                if returncode \<noteq> 0 then
                  (case index0 cmd of
                     Inl x \<Rightarrow> (Inl (Some x), w')
                   | Inr c \<Rightarrow> (Inr (False, CommandFailed returncode c full_output), w'))
                else
                  (case (case expected_outpaths of None \<Rightarrow> None | Some ps \<Rightarrow> missing_output w' ps) of
                     Some p \<Rightarrow> (Inr (False, ExpectedOutputNotProduced p full_output), w')
                   | None \<Rightarrow> (Inr (True, FullOutput full_output), w'))))"

definition run_cmd ::
  "env \<Rightarrow> arg list \<Rightarrow> path list option \<Rightarrow> nat \<Rightarrow> world \<Rightarrow> (exn + bool \<times> msg) \<times> world" where
  "run_cmd e cmd expected_outpaths timeout w =
     (case run_cmd_body e cmd expected_outpaths timeout w of
        (Inr r, w') \<Rightarrow> (Inr r, w')
      | (Inl None, w') \<Rightarrow>
          (let w'' = w'\<lparr>killed := killed w' @ [cmd]\<rparr> in
           case index0 cmd of
             Inl x \<Rightarrow> (Inl x, w'')
           | Inr c \<Rightarrow> (Inr (False, CommandTimedOut timeout c), w''))
      | (Inl (Some (FileNotFoundError _)), w') \<Rightarrow>
          (case index0 cmd of
             Inl x \<Rightarrow> (Inl x, w')
           | Inr c \<Rightarrow> (Inr (False, CommandNotFound c), w'))
      | (Inl (Some x), w') \<Rightarrow> (Inr (False, UnexpectedError x), w'))"

subsection \<open>\<^verbatim>\<open>utils/metrics.py\<close>\<close>

definition compute_mse_psnr :: "env \<Rightarrow> path \<Rightarrow> path \<Rightarrow> world \<Rightarrow> pyfloat" where
  \<comment> \<open>The PSNR component of the pair; any exception (a file that cannot be opened, a
      failing computation) gives \<^verbatim>\<open>(None, 0.0)\<close>.\<close>
  "compute_mse_psnr e orig_path comp_path w =
     (case (files w orig_path, files w comp_path) of
        (Some orig, Some c) \<Rightarrow> (case psnr_of e orig c of Some v \<Rightarrow> v | None \<Rightarrow> Fin 0)
      | _ \<Rightarrow> Fin 0)"

definition compute_ssim_skimage :: "env \<Rightarrow> path \<Rightarrow> path \<Rightarrow> world \<Rightarrow> pyfloat option" where
  "compute_ssim_skimage e orig_path comp_path w =
     (case (files w orig_path, files w comp_path) of
        (Some orig, Some c) \<Rightarrow> ssim_of e orig c
      | _ \<Rightarrow> None)"

definition run_butteraugli ::
  "env \<Rightarrow> path \<Rightarrow> path \<Rightarrow> string option \<Rightarrow> world \<Rightarrow> pyfloat option \<times> world" where
  "run_butteraugli e orig_path comp_path butter_bin w =
     (case butter_bin of
        None \<Rightarrow> (None, w)
      | Some b \<Rightarrow>
          (case run_cmd e [Str b, PathArg orig_path, PathArg comp_path] None 30 w of
             (Inl _, w') \<Rightarrow> (None, w')
           | (Inr (ok, out), w') \<Rightarrow>
               if \<not> ok then (None, w')
               else (case out of FullOutput s \<Rightarrow> (first_number e s, w') | _ \<Rightarrow> (None, w'))))"

subsection \<open>\<^verbatim>\<open>mods/hybrid_perceptual.py\<close>: the encoder adapters\<close>

definition mozjpeg_save ::
  "env \<Rightarrow> path \<Rightarrow> path \<Rightarrow> string \<Rightarrow> int \<Rightarrow> world \<Rightarrow> (exn + bool \<times> msg) \<times> world" where
  "mozjpeg_save e in_path out_path cjpeg_bin q w =
     run_cmd e [Str cjpeg_bin, Str ''-quality'', IntArg q, Str ''-optimize'', Str ''-progressive'',
                Str ''-sample'', Str ''1x1'', Str ''-outfile'', PathArg out_path, PathArg in_path]
       (Some [out_path]) 60 w"

definition pillow_save_jpeg ::
  "env \<Rightarrow> path \<Rightarrow> path \<Rightarrow> int \<Rightarrow> bool \<Rightarrow> world \<Rightarrow> (exn + bool \<times> msg) \<times> world" where
  "pillow_save_jpeg e in_path out_path q keep w =
     (case files w in_path of
        None \<Rightarrow> (Inr (False, UnexpectedError (FileNotFoundError in_path)), w)
      | Some img \<Rightarrow>
          (case pil_save e ''JPEG'' img q keep of
             Saved b \<Rightarrow> (Inr (True, NoNote), w\<lparr>files := (files w)(out_path \<mapsto> b)\<rparr>)
           | Raised s \<Rightarrow> (Inr (False, PillowNote s), w)))"

definition cwebp_save ::
  "env \<Rightarrow> path \<Rightarrow> path \<Rightarrow> string \<Rightarrow> int \<Rightarrow> world \<Rightarrow> (exn + bool \<times> msg) \<times> world" where
  "cwebp_save e in_path out_path cwebp_bin q w =
     run_cmd e [Str cwebp_bin, Str ''-q'', IntArg q, PathArg in_path, Str ''-o'', PathArg out_path]
       (Some [out_path]) 60 w"

definition pillow_save_webp ::
  "env \<Rightarrow> path \<Rightarrow> path \<Rightarrow> int \<Rightarrow> world \<Rightarrow> (exn + bool \<times> msg) \<times> world" where
  "pillow_save_webp e in_path out_path q w =
     (case files w in_path of
        None \<Rightarrow> (Inr (False, PillowNote ''Pillow fail''), w)
      | Some img \<Rightarrow>
          (case pil_save e ''WEBP'' img q False of
             Saved b \<Rightarrow> (Inr (True, NoNote), w\<lparr>files := (files w)(out_path \<mapsto> b)\<rparr>)
           | Raised s \<Rightarrow> (Inr (False, PillowNote ''Pillow fail''), w)))"

definition avif_cq :: "int \<Rightarrow> int" where
  \<comment> \<open>\<^verbatim>\<open>max(0, min(63, int(q * 63 / 100)))\<close>; \<^verbatim>\<open>int\<close> truncates towards zero.\<close>
  "avif_cq q = max 0 (min 63 (if 0 \<le> q then (q * 63) div 100 else - ((- (q * 63)) div 100)))"

definition avifenc_save ::
  "env \<Rightarrow> path \<Rightarrow> path \<Rightarrow> string \<Rightarrow> int \<Rightarrow> world \<Rightarrow> (exn + bool \<times> msg) \<times> world" where
  "avifenc_save e in_path out_path avif_bin q w =
     (let cq = avif_cq q in
      run_cmd e [Str avif_bin, Str ''--min'', IntArg cq, Str ''--max'', IntArg cq,
                 PathArg in_path, PathArg out_path]
        (Some [out_path]) 60 w)"

subsection \<open>\<^verbatim>\<open>binary_search_quality\<close>\<close>

type_synonym make_cand = "int \<Rightarrow> path \<Rightarrow> world \<Rightarrow> (exn + bool \<times> msg) \<times> world"

type_synonym metrics_fun = "path \<Rightarrow> path \<Rightarrow> string option \<Rightarrow> world \<Rightarrow> metrics \<times> world"

text \<open>The dictionary \<^verbatim>\<open>best\<close>: quality, path and metrics.\<close>

type_synonym best = "int \<times> path \<times> metrics"

datatype search_result = SearchSuccess int path metrics | SearchFailure

fun success :: "search_result \<Rightarrow> bool" where
  "success (SearchSuccess _ _ _) = True"
| "success SearchFailure = False"

definition cand_name :: "int \<Rightarrow> string" where
  "cand_name mid = ''q'' @ str_int mid @ ''.tmp''"

definition best_name :: "int \<Rightarrow> string" where
  "best_name q = ''best_q'' @ str_int q @ ''.bin''"

text \<open>
  The \<^verbatim>\<open>while lo <= hi\<close> loop. The counter \<open>n\<close> is not in the source: it counts the
  calls of \<^verbatim>\<open>make_cand_fn\<close> (the encode attempts) and is returned beside the result,
  also when an exception ends the loop.
\<close>

function bsq_loop ::
  "make_cand \<Rightarrow> metrics_fun \<Rightarrow> path \<Rightarrow> args \<Rightarrow> string option \<Rightarrow> dir \<Rightarrow>
   int \<Rightarrow> int \<Rightarrow> best option \<Rightarrow> nat \<Rightarrow> world \<Rightarrow> (exn + best option) \<times> nat \<times> world" where
  "bsq_loop make_cand_fn metrics_fn orig a butter_bin tmpdir lo hi best n w =
     (if lo \<le> hi then
        (let mid = (lo + hi) div 2;
             cand = (tmpdir, cand_name mid)
         in case make_cand_fn mid cand w of
              (Inl x, w') \<Rightarrow> (Inl x, Suc n, w')
            | (Inr (ok, _), w') \<Rightarrow>
                if \<not> ok then
                  bsq_loop make_cand_fn metrics_fn orig a butter_bin tmpdir (mid + 1) hi best (Suc n) w'
                else
                  (case metrics_fn orig cand butter_bin w' of
                     (m, w'') \<Rightarrow>
                       if passes_threshold a m then
                         bsq_loop make_cand_fn metrics_fn orig a butter_bin tmpdir lo (mid - 1)
                           (Some (mid, cand, m)) (Suc n) w''
                       else
                         bsq_loop make_cand_fn metrics_fn orig a butter_bin tmpdir (mid + 1) hi
                           best (Suc n) w''))
      else (Inr best, n, w))"
  by pat_completeness auto
termination
  by (relation "measure (\<lambda>(_, _, _, _, _, _, lo, hi, _, _, _). nat (hi - lo + 1))") auto

declare bsq_loop.simps [simp del]

definition binary_search_quality ::
  "make_cand \<Rightarrow> metrics_fun \<Rightarrow> path \<Rightarrow> int \<Rightarrow> int \<Rightarrow> args \<Rightarrow> string option \<Rightarrow> world \<Rightarrow>
   (exn + search_result) \<times> nat \<times> world" where
  "binary_search_quality make_cand_fn metrics_fn orig lo hi a butter_bin w =
     (case mkdtemp SearchDir w of
        (tmpdir, w0) \<Rightarrow>
          (case bsq_loop make_cand_fn metrics_fn orig a butter_bin tmpdir lo hi None 0 w0 of
             (Inl x, n, w1) \<Rightarrow> (Inl x, n, w1)
           | (Inr None, n, w1) \<Rightarrow> (Inr SearchFailure, n, w1)
           | (Inr (Some (q, p, m)), n, w1) \<Rightarrow>
               (let dest = (tmpdir, best_name q) in
                case shutil_move p dest w1 of
                  (Inl x, w2) \<Rightarrow> (Inl x, n, w2)
                | (Inr _, w2) \<Rightarrow> (Inr (SearchSuccess q dest m), n, w2))))"

subsection \<open>\<^verbatim>\<open>utils/image_ops.py\<close> and \<^verbatim>\<open>pathlib\<close>\<close>

definition quoted :: "string \<Rightarrow> string" where
  \<comment> \<open>the text between single quotes\<close>
  "quoted s = [CHR 0x27] @ s @ [CHR 0x27]"

definition repr_path :: "env \<Rightarrow> path \<Rightarrow> string" where
  \<comment> \<open>\<^verbatim>\<open>repr\<close> of a \<^verbatim>\<open>Path\<close> object on a POSIX system\<close>
  "repr_path e p = ''PosixPath'' @ [CHR 0x28] @ quoted (path_text e p) @ [CHR 0x29]"

definition str_exn :: "env \<Rightarrow> exn \<Rightarrow> string" where
  \<comment> \<open>\<^verbatim>\<open>str(e)\<close>: an \<^verbatim>\<open>OSError\<close> prints its errno, message and file name, and
      \<^verbatim>\<open>shutil.copy2\<close> formats its \<^verbatim>\<open>SameFileError\<close> from the two \<^verbatim>\<open>Path\<close> objects.\<close>
  "str_exn e x =
     (case x of
        FileNotFoundError p \<Rightarrow> ''[Errno 2] No such file or directory: '' @ quoted (path_text e p)
      | SameFileError p \<Rightarrow> repr_path e p @ '' and '' @ repr_path e p @ '' are the same file''
      | IndexError \<Rightarrow> ''list index out of range''
      | OtherException s \<Rightarrow> s)"

definition smart_resize_width_only ::
  "env \<Rightarrow> path \<Rightarrow> path \<Rightarrow> world \<Rightarrow> (bool \<times> path) \<times> world" where
  \<comment> \<open>On an exception the second component is \<^verbatim>\<open>str(e)\<close>, which the caller goes on to
      use as a path.\<close>
  "smart_resize_width_only e in_path out_path w =
     (case files w in_path of
        None \<Rightarrow> ((False, (Elsewhere, str_exn e (FileNotFoundError in_path))), w)
      | Some img \<Rightarrow>
          (case pil_resize_width e img of
             Resized b \<Rightarrow> ((True, out_path), w\<lparr>files := (files w)(out_path \<mapsto> b)\<rparr>)
           | NotResized \<Rightarrow>
               (case shutil_copy2 in_path out_path w of
                  (Inl x, w') \<Rightarrow> ((False, (Elsewhere, str_exn e x)), w')
                | (Inr _, w') \<Rightarrow> ((False, out_path), w'))
           | ResizeRaised s \<Rightarrow> ((False, (Elsewhere, s)), w)))"

definition rfind_dot :: "string \<Rightarrow> nat option" where
  \<comment> \<open>\<^verbatim>\<open>name.rfind('.')\<close>, \<open>None\<close> for \<^verbatim>\<open>-1\<close>\<close>
  "rfind_dot name =
     (case filter (\<lambda>i. name ! i = CHR ''.'') (rev [0..<length name]) of
        [] \<Rightarrow> None
      | i # _ \<Rightarrow> Some i)"

definition py_stem :: "string \<Rightarrow> string" where
  \<comment> \<open>\<^verbatim>\<open>PurePath.stem\<close>: the name without its last suffix.\<close>
  "py_stem name =
     (case rfind_dot name of
        None \<Rightarrow> name
      | Some i \<Rightarrow> if 0 < i \<and> i + 1 < length name then take i name else name)"

subsection \<open>\<^verbatim>\<open>mods/hybrid_perceptual.py\<close>: \<^verbatim>\<open>process_file\<close>\<close>

record bins =
  bin_cjpeg :: "string option"
  bin_cwebp :: "string option"
  bin_avifenc :: "string option"
  bin_butter :: "string option"

definition metrics_fn :: "env \<Rightarrow> metrics_fun" where
  "metrics_fn e orig cand butter_bin w =
     (let p = compute_mse_psnr e orig cand w;
          s = compute_ssim_skimage e orig cand w
      in case (case butter_bin of None \<Rightarrow> (None, w) | Some _ \<Rightarrow> run_butteraugli e orig cand butter_bin w) of
           (b, w') \<Rightarrow> (\<lparr>psnr = Some p, ssim = s, butter = b\<rparr>, w'))"

definition make_jpeg :: "env \<Rightarrow> bins \<Rightarrow> args \<Rightarrow> path \<Rightarrow> make_cand" where
  "make_jpeg e b a work_in q p w =
     (case bin_cjpeg b of
        Some cjpeg \<Rightarrow> mozjpeg_save e work_in p cjpeg q w
      | None \<Rightarrow> pillow_save_jpeg e work_in p q (keep_exif a) w)"

definition make_webp :: "env \<Rightarrow> bins \<Rightarrow> path \<Rightarrow> make_cand" where
  "make_webp e b work_in q p w =
     (case bin_cwebp b of
        Some cwebp \<Rightarrow> cwebp_save e work_in p cwebp q w
      | None \<Rightarrow> pillow_save_webp e work_in p q w)"

definition make_avif :: "env \<Rightarrow> string \<Rightarrow> path \<Rightarrow> make_cand" where
  "make_avif e avifenc work_in q p w = avifenc_save e work_in p avifenc q w"

text \<open>An entry of the list \<^verbatim>\<open>candidates\<close>.\<close>

record candidate =
  fmt :: string
  cand_bytes :: nat
  cand_path :: path
  cand_q :: int

text \<open>The dictionary \<^verbatim>\<open>res\<close>; a key that was never set is \<open>None\<close>.\<close>

record job_result =
  res_file :: path
  original_bytes :: nat
  res_method :: string
  final_bytes :: "nat option"
  res_error :: "string option"

fun py_min_by :: "('a \<Rightarrow> nat) \<Rightarrow> 'a \<Rightarrow> 'a list \<Rightarrow> 'a" where
  \<comment> \<open>\<^verbatim>\<open>min(xs, key=..)\<close> on a non-empty list, as CPython computes it: the running
      minimum is replaced only by a strictly smaller key.\<close>
  "py_min_by key m [] = m"
| "py_min_by key m (x # xs) = py_min_by key (if key x < key m then x else m) xs"

text \<open>
  One pipeline of \<^verbatim>\<open>process_file\<close>: the search, and on success the new entry of
  \<^verbatim>\<open>candidates\<close> (the source repeats these lines for JPEG, WebP and AVIF).
\<close>

definition search_and_append ::
  "env \<Rightarrow> string \<Rightarrow> make_cand \<Rightarrow> path \<Rightarrow> int \<Rightarrow> int \<Rightarrow> args \<Rightarrow> string option \<Rightarrow>
   candidate list \<Rightarrow> world \<Rightarrow> (exn + candidate list) \<times> world" where
  "search_and_append e f make_cand_fn work_in lo hi a butter_bin candidates w =
     (case binary_search_quality make_cand_fn (metrics_fn e) work_in lo hi a butter_bin w of
        (Inl x, _, w') \<Rightarrow> (Inl x, w')
      | (Inr SearchFailure, _, w') \<Rightarrow> (Inr candidates, w')
      | (Inr (SearchSuccess q p m), _, w') \<Rightarrow>
          (case stat_size w' p of
             Inl x \<Rightarrow> (Inl x, w')
           | Inr sz \<Rightarrow>
               (Inr (candidates @ [\<lparr>fmt = f, cand_bytes = sz, cand_path = p, cand_q = q\<rparr>]), w')))"

text \<open>Lines 96 to 130: the resize and the three searches.\<close>

definition collect_candidates ::
  "env \<Rightarrow> path \<Rightarrow> args \<Rightarrow> bins \<Rightarrow> dir \<Rightarrow> world \<Rightarrow> (exn + candidate list) \<times> world" where
  "collect_candidates e in_path a b workdir w =
     (case smart_resize_width_only e in_path (workdir, snd in_path) w of
        ((resized, work_in), w1) \<Rightarrow>
          (case (if mode a = Jpeg \<or> mode a = Best
                 then search_and_append e ''jpg'' (make_jpeg e b a work_in) work_in
                        (min_q a) (max_q a) a (bin_butter b) [] w1
                 else (Inr [], w1)) of
             (Inl x, w2) \<Rightarrow> (Inl x, w2)
           | (Inr c1, w2) \<Rightarrow>
               (case (if mode a = Best
                      then search_and_append e ''webp'' (make_webp e b work_in) work_in
                             10 100 a (bin_butter b) c1 w2
                      else (Inr c1, w2)) of
                  (Inl x, w3) \<Rightarrow> (Inl x, w3)
                | (Inr c2, w3) \<Rightarrow>
                    (if mode a = Best \<and> bin_avifenc b \<noteq> None
                     then search_and_append e ''avif'' (make_avif e (the (bin_avifenc b)) work_in)
                            work_in 10 90 a (bin_butter b) c2 w3
                     else (Inr c2, w3)))))"

text \<open>Lines 132 to 140: the choice of the smallest candidate, or the copy of the original.\<close>

definition select_best ::
  "path \<Rightarrow> dir \<Rightarrow> job_result \<Rightarrow> candidate list \<Rightarrow> world \<Rightarrow> (exn + job_result) \<times> world" where
  "select_best in_path out_dir res candidates w =
     (case candidates of
        c # cs \<Rightarrow>
          (let best = py_min_by cand_bytes c cs;
               out_path = (out_dir, py_stem (snd in_path) @ ''.'' @ fmt best)
           in case shutil_move (cand_path best) out_path w of
                (Inl x, w') \<Rightarrow> (Inl x, w')
              | (Inr _, w') \<Rightarrow>
                  (Inr (res\<lparr>final_bytes := Some (cand_bytes best),
                             res_method := fmt best @ '' (q='' @ str_int (cand_q best) @ '')''\<rparr>), w'))
      | [] \<Rightarrow>
          (case shutil_copy2 in_path (out_dir, snd in_path) w of
             (Inl x, w') \<Rightarrow> (Inl x, w')
           | (Inr _, w') \<Rightarrow> (Inr (res\<lparr>res_error := Some ''No candidates met criteria''\<rparr>), w')))"

definition process_file ::
  "env \<Rightarrow> path \<Rightarrow> dir \<Rightarrow> args \<Rightarrow> bins \<Rightarrow> world \<Rightarrow> (exn + job_result) \<times> world" where
  "process_file e in_path out_dir a b w =
     (case stat_size w in_path of
        Inl x \<Rightarrow> (Inl x, w)
      | Inr sz \<Rightarrow>
          (let res = \<lparr>res_file = in_path, original_bytes = sz, res_method = ''none'',
                      final_bytes = None, res_error = None\<rparr>
           in case mkdtemp WorkDir w of
                (workdir, w0) \<Rightarrow>
                  (case (case collect_candidates e in_path a b workdir w0 of
                           (Inl x, w1) \<Rightarrow> (Inl x, w1)
                         | (Inr candidates, w1) \<Rightarrow> select_best in_path out_dir res candidates w1) of
                     (Inl x, w2) \<Rightarrow> (Inr (res\<lparr>res_error := Some (str_exn e x)\<rparr>), rmtree workdir w2)
                   | (Inr res', w2) \<Rightarrow> (Inr res', rmtree workdir w2))))"

subsection \<open>\<^verbatim>\<open>mods/jpeg_binary_search.py\<close>: \<^verbatim>\<open>find_best_jpeg\<close>\<close>



datatype jpeg_search = JpegSuccess int path "pyfloat option" "pyfloat option" nat | JpegFailure string

fun jpeg_success :: "jpeg_search \<Rightarrow> bool" where
  "jpeg_success (JpegSuccess _ _ _ _ _) = True"
| "jpeg_success (JpegFailure _) = False"

definition jpeg_cand_name :: "int \<Rightarrow> string" where
  "jpeg_cand_name mid = ''cand_q'' @ str_int mid @ ''.jpg''"





subsection \<open>Notions used to state the properties\<close>

text \<open>
  The abstract binary search over a predicate \<open>P\<close> on qualities: the control skeleton
  that both loops share. It is not part of the program; the loops are shown to compute
  what it computes.
\<close>

function bisect :: "(int \<Rightarrow> bool) \<Rightarrow> int \<Rightarrow> int \<Rightarrow> int option \<Rightarrow> nat \<Rightarrow> int option \<times> nat" where
  "bisect P lo hi best n =
     (if lo \<le> hi then
        (let mid = (lo + hi) div 2
         in if P mid then bisect P lo (mid - 1) (Some mid) (Suc n)
            else bisect P (mid + 1) hi best (Suc n))
      else (best, n))"
  by pat_completeness auto
termination
  by (relation "measure (\<lambda>(_, lo, hi, _, _). nat (hi - lo + 1))") auto

declare bisect.simps [simp del]

text \<open>
  Quality \<open>q\<close> passes for an encoder adapter: one encode attempt at \<open>q\<close> in the fresh
  search directory reports success and the metrics of its output satisfy the threshold.
\<close>

definition attempt_passes ::
  "make_cand \<Rightarrow> metrics_fun \<Rightarrow> path \<Rightarrow> args \<Rightarrow> string option \<Rightarrow> dir \<Rightarrow> world \<Rightarrow> int \<Rightarrow> bool" where
  "attempt_passes make_cand_fn metrics_fn' orig a butter_bin tmpdir w q =
     (case make_cand_fn q (tmpdir, cand_name q) w of
        (Inr (True, _), w') \<Rightarrow>
          passes_threshold a (fst (metrics_fn' orig (tmpdir, cand_name q) butter_bin w'))
      | _ \<Rightarrow> False)"

definition quality_passes ::
  "make_cand \<Rightarrow> metrics_fun \<Rightarrow> path \<Rightarrow> args \<Rightarrow> string option \<Rightarrow> world \<Rightarrow> int \<Rightarrow> bool" where
  "quality_passes make_cand_fn metrics_fn' orig a butter_bin w q =
     (case mkdtemp SearchDir w of
        (tmpdir, w0) \<Rightarrow> attempt_passes make_cand_fn metrics_fn' orig a butter_bin tmpdir w0 q)"


text \<open>
  What the proofs use of an encoder adapter that reads \<open>inp\<close> and writes its output
  path: it returns a pair (it never raises), it changes no other file and creates no
  directory, a reported success leaves a file at the output path, and its result and
  output depend on the state only through the two files.
\<close>

definition encoder_adapter :: "make_cand \<Rightarrow> path \<Rightarrow> bool" where
  "encoder_adapter mk inp =
     (\<forall>q p w.
        (\<exists>ok nt. fst (mk q p w) = Inr (ok, nt)) \<and>
        (\<forall>p'. p' \<noteq> p \<longrightarrow> files (snd (mk q p w)) p' = files w p') \<and>
        tmp_next (snd (mk q p w)) = tmp_next w \<and>
        (\<forall>nt. fst (mk q p w) = Inr (True, nt) \<longrightarrow> files (snd (mk q p w)) p \<noteq> None) \<and>
        (\<forall>w2. files w p = files w2 p \<and> files w inp = files w2 inp \<longrightarrow>
           fst (mk q p w) = fst (mk q p w2) \<and>
           files (snd (mk q p w)) p = files (snd (mk q p w2)) p))"

subsection \<open>Example inputs\<close>

text \<open>The text of the paths of the examples, for the folders \<^verbatim>\<open>in\<close> and \<^verbatim>\<open>out\<close>.\<close>

fun ex_dir_text :: "dir \<Rightarrow> string" where
  "ex_dir_text InputDir = ''in/''"
| "ex_dir_text OutputDir = ''out/''"
| "ex_dir_text (WorkDir n) = ''/tmp/work_'' @ str_nat n @ ''/''"
| "ex_dir_text (SearchDir n) = ''/tmp/search_'' @ str_nat n @ ''/''"
| "ex_dir_text Elsewhere = []"
| "ex_dir_text (Sub d name) = ex_dir_text d @ name @ ''/''"

definition ex_path_text :: "path \<Rightarrow> string" where
  "ex_path_text p = ex_dir_text (fst p) @ snd p"

text \<open>
  A run without external tools, in which Pillow encodes quality \<open>q\<close> as \<open>q\<close> bytes and
  the PSNR of a candidate is 40 from 52 bytes on and 30 below: with the default target
  38 a quality passes iff it is at least 52 (the scenario of the specification).
\<close>

definition ex_env :: env where
  "ex_env =
     \<lparr>popen = (\<lambda>cmd t. (NotFound, None)),
      pil_save = (\<lambda>f img q k. Saved (replicate (nat q) 7)),
      pil_resize_width = (\<lambda>img. NotResized),
      psnr_of = (\<lambda>orig c. Some (Fin (if 52 \<le> length c then 40 else 30))),
      ssim_of = (\<lambda>orig c. None),
      first_number = (\<lambda>s. None),
      path_text = ex_path_text,
      pil_thumbnail = (\<lambda>img max_dim. NotResized),
      have_cv2 = False,
      ssim_cv2_of = (\<lambda>orig c. None)\<rparr>"

definition ex_args :: args where
  "ex_args =
     \<lparr>mode = Jpeg, min_q = 30, max_q = 95, target_psnr = Fin 38, use_ssim = False,
      target_ssim = Fin (995 / 1000), use_butter = False, target_butter = Fin 1,
      keep_exif = False\<rparr>"

definition ex_bins :: bins where
  "ex_bins = \<lparr>bin_cjpeg = None, bin_cwebp = None, bin_avifenc = None, bin_butter = None\<rparr>"

definition ex_world :: world where
  "ex_world =
     \<lparr>files = [(InputDir, ''a.png'') \<mapsto> [1, 2, 3], (WorkDir 0, ''a.png'') \<mapsto> [1, 2, 3]],
      tmp_next = 1, killed = []\<rparr>"

text \<open>
  External commands for the examples: \<^verbatim>\<open>slow\<close> runs into the timeout, \<^verbatim>\<open>fails\<close> exits
  with status 1, \<^verbatim>\<open>quiet\<close> exits with status 0 and writes nothing, \<^verbatim>\<open>crash\<close> makes
  \<^verbatim>\<open>Popen\<close> raise, and no other executable exists.
\<close>

definition ex_tools :: env where
  "ex_tools =
     ex_env\<lparr>popen := (\<lambda>cmd t.
       if hd cmd = Str ''slow'' then (TimedOut, None)
       else if hd cmd = Str ''fails'' then (Exited 1 ''out'' ''err'', None)
       else if hd cmd = Str ''quiet'' then (Exited 0 [] [], None)
       else if hd cmd = Str ''crash'' then (Failed ''permission denied'', None)
       else (NotFound, None))\<rparr>"

text \<open>
  The entries of \<^verbatim>\<open>candidates\<close> are stored: each names the promoted file of a search
  directory created from \<open>k\<close> on, which exists and has the recorded size.
\<close>

definition cands_stored :: "nat \<Rightarrow> world \<Rightarrow> candidate list \<Rightarrow> bool" where
  "cands_stored k w cands =
     (\<forall>c \<in> set cands.
        \<exists>n bs. k \<le> n \<and> n < tmp_next w \<and> cand_path c = (SearchDir n, best_name (cand_q c)) \<and>
               files w (cand_path c) = Some bs \<and> cand_bytes c = length bs)"


subsection \<open>\<^verbatim>\<open>mods/hybrid_perceptual.py\<close>: \<^verbatim>\<open>run\<close>\<close>

text \<open>
  The batch loop submits one job per file to a thread pool and appends
  \<^verbatim>\<open>fut.result()\<close> to \<^verbatim>\<open>results\<close>; \<^verbatim>\<open>fut.result()\<close> returns what the job returned or
  raises what the job raised. The jobs are run here one after the other in the order of
  the batch, and collected in that order: the schedule of a pool with one worker.
  Leaving the \<^verbatim>\<open>with\<close> block waits for every job, also when an exception leaves the
  loop, so every job has run when \<^verbatim>\<open>run\<close> is left. The outcome of \<^verbatim>\<open>run\<close> is the list
  \<^verbatim>\<open>results\<close> from which the reports are written, an exception that leaves \<^verbatim>\<open>run\<close>, or
  \<^verbatim>\<open>sys.exit\<close>.
\<close>

datatype 'r batch = Results "'r list" | Uncaught exn | SysExit int

fun run_jobs ::
  "(path \<Rightarrow> world \<Rightarrow> (exn + 'r) \<times> world) \<Rightarrow> path list \<Rightarrow> world \<Rightarrow> (exn + 'r) list \<times> world" where
  "run_jobs job [] w = ([], w)"
| "run_jobs job (f # fs) w =
     (case job f w of
        (r, w1) \<Rightarrow> (case run_jobs job fs w1 of (rs, w2) \<Rightarrow> (r # rs, w2)))"

fun append_results :: "(exn + 'r) list \<Rightarrow> 'r list \<Rightarrow> 'r batch" where
  \<comment> \<open>\<^verbatim>\<open>for fut in ..: results.append(fut.result())\<close>\<close>
  "append_results [] results = Results results"
| "append_results (Inl x # futs) results = Uncaught x"
| "append_results (Inr r # futs) results = append_results futs (results @ [r])"

definition run ::
  "env \<Rightarrow> path list \<Rightarrow> dir \<Rightarrow> args \<Rightarrow> bins \<Rightarrow> world \<Rightarrow> job_result batch \<times> world" where
  "run e fs out_dir a b w =
     (case run_jobs (\<lambda>f. process_file e f out_dir a b) fs w of
        (futs, w') \<Rightarrow> (append_results futs [], w'))"

subsection \<open>\<^verbatim>\<open>mods/perceptual.py\<close>\<close>

text \<open>
  Directories are not part of the state (every directory exists), so the \<^verbatim>\<open>mkdir\<close> and
  \<^verbatim>\<open>rmdir\<close> of \<^verbatim>\<open>out_dir / "temp"\<close> have no counterpart here. The dictionary \<^verbatim>\<open>bins\<close> of
  this module has no key \<^verbatim>\<open>butter\<close>; that field of the record is not read.
\<close>

definition py_lt :: "pyfloat \<Rightarrow> pyfloat \<Rightarrow> bool" where
  "py_lt a b = (py_le a b \<and> a \<noteq> b)"

definition py_suffix :: "string \<Rightarrow> string" where
  \<comment> \<open>\<^verbatim>\<open>PurePath.suffix\<close>\<close>
  "py_suffix name =
     (case rfind_dot name of
        None \<Rightarrow> []
      | Some i \<Rightarrow> if 0 < i \<and> i + 1 < length name then drop i name else [])"

definition unlink :: "path \<Rightarrow> world \<Rightarrow> world" where
  \<comment> \<open>\<^verbatim>\<open>if p.exists(): p.unlink()\<close>\<close>
  "unlink p w = w\<lparr>files := (files w)(p := None)\<rparr>"

definition type_error_cmp :: "string \<Rightarrow> exn" where
  \<comment> \<open>the \<^verbatim>\<open>TypeError\<close> of comparing \<^verbatim>\<open>None\<close> with a float\<close>
  "type_error_cmp opr =
     OtherException (quoted opr @ '' not supported between instances of '' @ quoted ''NoneType'' @
                     '' and '' @ quoted ''float'')"

definition type_error_format :: exn where
  \<comment> \<open>the \<^verbatim>\<open>TypeError\<close> of formatting \<^verbatim>\<open>None\<close> with \<^verbatim>\<open>.3f\<close>\<close>
  "type_error_format = OtherException ''unsupported format string passed to NoneType.__format__''"

definition compute_ssim_cv2 :: "env \<Rightarrow> path \<Rightarrow> path \<Rightarrow> world \<Rightarrow> pyfloat option" where
  \<comment> \<open>\<^verbatim>\<open>None\<close> without OpenCV; 0.0 for a file \<^verbatim>\<open>imread\<close> cannot read and for any exception\<close>
  "compute_ssim_cv2 e original_path compressed_path w =
     (if \<not> have_cv2 e then None
      else Some (case (files w original_path, files w compressed_path) of
                   (Some orig, Some c) \<Rightarrow> (case ssim_cv2_of e orig c of Some v \<Rightarrow> v | None \<Rightarrow> Fin 0)
                 | _ \<Rightarrow> Fin 0))"

definition resize_image ::
  "env \<Rightarrow> path \<Rightarrow> path \<Rightarrow> int \<Rightarrow> world \<Rightarrow> (bool \<times> string) \<times> world" where
  "resize_image e in_file out_file max_dim w =
     (case files w in_file of
        None \<Rightarrow> ((False, str_exn e (FileNotFoundError in_file)), w)
      | Some img \<Rightarrow>
          (case pil_thumbnail e img max_dim of
             Resized b \<Rightarrow> ((True, ''Resized''), w\<lparr>files := (files w)(out_file \<mapsto> b)\<rparr>)
           | NotResized \<Rightarrow>
               (case shutil_copy2 in_file out_file w of
                  (Inl x, w') \<Rightarrow> ((False, str_exn e x), w')
                | (Inr _, w') \<Rightarrow> ((True, ''No resize needed''), w'))
           | ResizeRaised s \<Rightarrow> ((False, s), w)))"

text \<open>The value of the key \<^verbatim>\<open>method\<close>: the f-string with the values it interpolates.\<close>

datatype pmethod =
    MethodNone
  | JpegQSsim int pyfloat
  | WebpQSsim int pyfloat
  | AvifCqSsim int pyfloat

definition py_range_down :: "int \<Rightarrow> int \<Rightarrow> nat \<Rightarrow> int list" where
  \<comment> \<open>\<^verbatim>\<open>range(start, stop, -step)\<close> for a positive \<^verbatim>\<open>step\<close>\<close>
  "py_range_down start stop step =
     map (\<lambda>k. start - int k * int step) [0 ..< nat ((start - stop + int step - 1) div int step)]"

definition cjpeg_cmd :: "string \<Rightarrow> int \<Rightarrow> path \<Rightarrow> path \<Rightarrow> arg list" where
  "cjpeg_cmd cjpeg_bin q out_file in_file =
     [Str cjpeg_bin, Str ''-quality'', IntArg q, Str ''-optimize'', Str ''-progressive'',
      Str ''-outfile'', PathArg out_file, PathArg in_file]"

text \<open>The \<^verbatim>\<open>for\<close> loop of \<^verbatim>\<open>optimize_jpeg_advanced\<close>, on the qualities still to try.\<close>

fun oja_loop ::
  "env \<Rightarrow> path \<Rightarrow> path \<Rightarrow> string \<Rightarrow> pyfloat \<Rightarrow> int list \<Rightarrow> int option \<Rightarrow> world \<Rightarrow>
   (exn + int option) \<times> world" where
  "oja_loop e in_file out_file cjpeg_bin ssim_threshold [] best_q w = (Inr best_q, w)"
| "oja_loop e in_file out_file cjpeg_bin ssim_threshold (q # qs) best_q w =
     (case run_cmd e (cjpeg_cmd cjpeg_bin q out_file in_file) (Some [out_file]) 60 w of
        (Inl x, w1) \<Rightarrow> (Inl x, w1)
      | (Inr (ok, _), w1) \<Rightarrow>
          if \<not> ok then oja_loop e in_file out_file cjpeg_bin ssim_threshold qs best_q w1
          else
            (case compute_ssim_cv2 e in_file out_file w1 of
               None \<Rightarrow> (Inl (type_error_cmp ''>=''), w1)
             | Some current_ssim \<Rightarrow>
                 if py_ge current_ssim ssim_threshold then
                   (case stat_size w1 out_file of
                      Inl x \<Rightarrow> (Inl x, w1)
                    | Inr _ \<Rightarrow> oja_loop e in_file out_file cjpeg_bin ssim_threshold qs (Some q) w1)
                 else (Inr best_q, w1)))"

text \<open>The three converters return \<^verbatim>\<open>(ok, method, size)\<close>: \<open>None\<close> is \<^verbatim>\<open>ok = False\<close>.\<close>

definition optimize_jpeg_advanced ::
  "env \<Rightarrow> path \<Rightarrow> path \<Rightarrow> string \<Rightarrow> int \<Rightarrow> int \<Rightarrow> pyfloat \<Rightarrow> world \<Rightarrow>
   (exn + (pmethod \<times> nat) option) \<times> world" where
  "optimize_jpeg_advanced e in_file out_file cjpeg_bin quality_start quality_min ssim_threshold w =
     (case oja_loop e in_file out_file cjpeg_bin ssim_threshold
             (py_range_down quality_start (quality_min - 1) 2) None w of
        (Inl x, w1) \<Rightarrow> (Inl x, w1)
      | (Inr None, w1) \<Rightarrow> (Inr None, unlink out_file w1)
      | (Inr (Some best_q), w1) \<Rightarrow>
          (case run_cmd e (cjpeg_cmd cjpeg_bin best_q out_file in_file) (Some [out_file]) 60 w1 of
             (Inl x, w2) \<Rightarrow> (Inl x, w2)
           | (Inr _, w2) \<Rightarrow>
               (case compute_ssim_cv2 e in_file out_file w2 of
                  None \<Rightarrow> (Inl type_error_format, w2)
                | Some final_ssim \<Rightarrow>
                    (case stat_size w2 out_file of
                       Inl x \<Rightarrow> (Inl x, w2)
                     | Inr sz \<Rightarrow> (Inr (Some (JpegQSsim best_q final_ssim, sz)), w2)))))"

definition convert_checked ::
  "env \<Rightarrow> arg list \<Rightarrow> path \<Rightarrow> path \<Rightarrow> pyfloat \<Rightarrow> (pyfloat \<Rightarrow> pmethod) \<Rightarrow> world \<Rightarrow>
   (exn + (pmethod \<times> nat) option) \<times> world" where
  \<comment> \<open>the common body of \<^verbatim>\<open>convert_to_webp\<close> and \<^verbatim>\<open>convert_to_avif\<close> after \<^verbatim>\<open>cmd\<close> is built\<close>
  "convert_checked e cmd in_file out_file ssim_threshold method w =
     (case run_cmd e cmd (Some [out_file]) 60 w of
        (Inl x, w1) \<Rightarrow> (Inl x, w1)
      | (Inr (ok, _), w1) \<Rightarrow>
          if \<not> ok \<or> files w1 out_file = None then (Inr None, w1)
          else
            (case compute_ssim_cv2 e in_file out_file w1 of
               None \<Rightarrow> (Inl (type_error_cmp ''<''), w1)
             | Some final_ssim \<Rightarrow>
                 if py_lt final_ssim ssim_threshold then (Inr None, unlink out_file w1)
                 else
                   (case stat_size w1 out_file of
                      Inl x \<Rightarrow> (Inl x, w1)
                    | Inr sz \<Rightarrow> (Inr (Some (method final_ssim, sz)), w1))))"

definition convert_to_webp ::
  "env \<Rightarrow> path \<Rightarrow> path \<Rightarrow> string \<Rightarrow> int \<Rightarrow> pyfloat \<Rightarrow> world \<Rightarrow>
   (exn + (pmethod \<times> nat) option) \<times> world" where
  "convert_to_webp e in_file out_file cwebp_bin quality ssim_threshold w =
     convert_checked e
       [Str cwebp_bin, Str ''-q'', IntArg quality, Str ''-m'', Str ''6'', Str ''-pass'', Str ''10'',
        Str ''-low_memory'', PathArg in_file, Str ''-o'', PathArg out_file]
       in_file out_file ssim_threshold (WebpQSsim quality) w"

definition convert_to_avif ::
  "env \<Rightarrow> path \<Rightarrow> path \<Rightarrow> string \<Rightarrow> int \<Rightarrow> pyfloat \<Rightarrow> world \<Rightarrow>
   (exn + (pmethod \<times> nat) option) \<times> world" where
  "convert_to_avif e in_file out_file avifenc_bin quality ssim_threshold w =
     convert_checked e
       [Str avifenc_bin, Str ''-j'', Str ''all'', Str ''-s'', Str ''4'', Str ''-y'', Str ''420'',
        Str ''--min'', IntArg (quality - 5), Str ''--max'', IntArg (quality + 5),
        PathArg in_file, PathArg out_file]
       in_file out_file ssim_threshold (AvifCqSsim quality) w"

text \<open>The arguments of the mod \<^verbatim>\<open>perceptual-best-of\<close>.\<close>

record pargs =
  arg_resize :: "int option"
  arg_quality :: int
  arg_quality_avif :: int
  arg_ssim :: pyfloat
  arg_webp :: bool
  arg_avif :: bool

record pcandidate =
  pc_method :: pmethod
  pc_file :: path
  pc_size :: nat

text \<open>
  The dictionary \<^verbatim>\<open>process_file\<close> returns; a key that is not set is \<open>None\<close>. The sizes
  are kept in bytes (the code stores them through \<^verbatim>\<open>to_kb\<close>).
\<close>

record presult =
  p_file :: path
  p_original_size :: "nat option"
  p_final_size :: "nat option"
  p_method :: "pmethod option"
  p_output_file :: "string option"
  p_error :: "string option"

definition append_candidate ::
  "path \<Rightarrow> pcandidate list \<Rightarrow> (exn + (pmethod \<times> nat) option) \<times> world \<Rightarrow>
   (exn + pcandidate list) \<times> world" where
  \<comment> \<open>\<^verbatim>\<open>if ok: candidates.append({"method": method, "file": out, "size": size})\<close>\<close>
  "append_candidate out candidates r =
     (case r of
        (Inl x, w) \<Rightarrow> (Inl x, w)
      | (Inr None, w) \<Rightarrow> (Inr candidates, w)
      | (Inr (Some (m, sz)), w) \<Rightarrow>
          (Inr (candidates @ [\<lparr>pc_method = m, pc_file = out, pc_size = sz\<rparr>]), w))"

definition perceptual_candidates ::
  "env \<Rightarrow> path \<Rightarrow> dir \<Rightarrow> string \<Rightarrow> pargs \<Rightarrow> bins \<Rightarrow> world \<Rightarrow> (exn + pcandidate list) \<times> world" where
  "perceptual_candidates e source temp_dir base_name a b w =
     (case (case bin_cjpeg b of
              Some cjpeg \<Rightarrow>
                append_candidate (temp_dir, base_name @ ''_optim.jpg'') []
                  (optimize_jpeg_advanced e source (temp_dir, base_name @ ''_optim.jpg'') cjpeg
                     90 50 (arg_ssim a) w)
            | None \<Rightarrow> (Inr [], w)) of
        (Inl x, w1) \<Rightarrow> (Inl x, w1)
      | (Inr c1, w1) \<Rightarrow>
          (case (if arg_webp a \<and> bin_cwebp b \<noteq> None
                 then append_candidate (temp_dir, base_name @ ''.webp'') c1
                        (convert_to_webp e source (temp_dir, base_name @ ''.webp'')
                           (the (bin_cwebp b)) (arg_quality a) (arg_ssim a) w1)
                 else (Inr c1, w1)) of
             (Inl x, w2) \<Rightarrow> (Inl x, w2)
           | (Inr c2, w2) \<Rightarrow>
               (if arg_avif a \<and> bin_avifenc b \<noteq> None
                then append_candidate (temp_dir, base_name @ ''.avif'') c2
                       (convert_to_avif e source (temp_dir, base_name @ ''.avif'')
                          (the (bin_avifenc b)) (arg_quality_avif a) (arg_ssim a) w2)
                else (Inr c2, w2))))"

definition perceptual_select ::
  "path \<Rightarrow> dir \<Rightarrow> nat \<Rightarrow> path \<Rightarrow> pcandidate list \<Rightarrow> world \<Rightarrow> (exn + presult) \<times> world" where
  "perceptual_select in_path out_dir orig_size temp_resized_file candidates w =
     (case candidates of
        [] \<Rightarrow>
          (Inr \<lparr>p_file = in_path, p_original_size = Some orig_size, p_final_size = Some orig_size,
                p_method = Some MethodNone, p_output_file = None,
                p_error = Some ''No compression method was successful or met quality threshold.''\<rparr>,
           unlink temp_resized_file w)
      | c # cs \<Rightarrow>
          (let best_candidate = py_min_by pc_size c cs;
               final_out_path = (out_dir, snd (pc_file best_candidate))
           in case shutil_move (pc_file best_candidate) final_out_path w of
                (Inl x, w1) \<Rightarrow> (Inl x, w1)
              | (Inr _, w1) \<Rightarrow>
                  (Inr \<lparr>p_file = in_path, p_original_size = Some orig_size,
                        p_final_size = Some (pc_size best_candidate),
                        p_method = Some (pc_method best_candidate),
                        p_output_file = Some (snd final_out_path), p_error = None\<rparr>,
                   unlink temp_resized_file (fold unlink (map pc_file candidates) w1))))"

definition perceptual_process_file ::
  "env \<Rightarrow> path \<Rightarrow> dir \<Rightarrow> pargs \<Rightarrow> bins \<Rightarrow> world \<Rightarrow> (exn + presult) \<times> world" where
  "perceptual_process_file e in_path out_dir a b w =
     (let base_name = py_stem (snd in_path) in
      case stat_size w in_path of
        Inl x \<Rightarrow> (Inl x, w)
      | Inr orig_size \<Rightarrow>
          (let temp_dir = Sub out_dir ''temp'';
               temp_resized_file = (temp_dir, base_name @ py_suffix (snd in_path))
           in case (case arg_resize a of
                      None \<Rightarrow> (Inr in_path, w)
                    | Some max_dim \<Rightarrow>
                        if max_dim = 0 then (Inr in_path, w)
                        else (case resize_image e in_path temp_resized_file max_dim w of
                                ((ok, note), w1) \<Rightarrow>
                                  if \<not> ok then (Inl note, w1) else (Inr temp_resized_file, w1))) of
                (Inl note, w1) \<Rightarrow>
                  (Inr \<lparr>p_file = in_path, p_original_size = None, p_final_size = None,
                        p_method = None, p_output_file = None,
                        p_error = Some (''Resize failed: '' @ note)\<rparr>, w1)
              | (Inr source_file_for_compression, w1) \<Rightarrow>
                  (case perceptual_candidates e source_file_for_compression temp_dir base_name a b w1 of
                     (Inl x, w2) \<Rightarrow> (Inl x, w2)
                   | (Inr candidates, w2) \<Rightarrow>
                       perceptual_select in_path out_dir orig_size temp_resized_file candidates w2)))"

fun append_results_logged :: "(exn + 'r) list \<Rightarrow> 'r list \<Rightarrow> 'r list" where
  \<comment> \<open>\<^verbatim>\<open>try: results.append(fut.result())\<close> with \<^verbatim>\<open>except Exception as e: Log.error(..)\<close>\<close>
  "append_results_logged [] results = results"
| "append_results_logged (Inl x # futs) results = append_results_logged futs results"
| "append_results_logged (Inr r # futs) results = append_results_logged futs (results @ [r])"

definition perceptual_run ::
  "env \<Rightarrow> path list \<Rightarrow> dir \<Rightarrow> pargs \<Rightarrow> bins \<Rightarrow> world \<Rightarrow> presult batch \<times> world" where
  \<comment> \<open>\<^verbatim>\<open>img_files\<close> is the sorted list of the files found\<close>
  "perceptual_run e img_files out_dir a b w =
     (if img_files = [] then (SysExit 1, w)
      else case run_jobs (\<lambda>f. perceptual_process_file e f out_dir a b) img_files w of
             (futs, w') \<Rightarrow> (Results (append_results_logged futs []), w'))"

subsection \<open>Example inputs of the batch runs\<close>

text \<open>
  A run of \<^verbatim>\<open>perceptual-best-of\<close> with only \<^verbatim>\<open>cjpeg\<close> installed, which writes \<open>q\<close> bytes
  at quality \<open>q\<close>; OpenCV is installed and scores a candidate 0.99 from 70 bytes on and
  0.90 below. The batch of the examples lists \<^verbatim>\<open>gone.png\<close>, a name in the input
  directory that \<^verbatim>\<open>stat\<close> cannot follow (a dangling link), and \<^verbatim>\<open>a.png\<close>.
\<close>

definition ex_cjpeg :: env where
  "ex_cjpeg =
     ex_env\<lparr>popen := (\<lambda>cmd t.
                if hd cmd = Str ''cjpeg''
                then (Exited 0 [] [], Some (replicate (nat (case cmd ! 2 of IntArg q \<Rightarrow> q | _ \<Rightarrow> 0)) 7))
                else (NotFound, None)),
            have_cv2 := True,
            ssim_cv2_of := (\<lambda>orig c. Some (Fin (if 70 \<le> length c then 99 / 100 else 9 / 10)))\<rparr>"

definition ex_pargs :: pargs where
  "ex_pargs =
     \<lparr>arg_resize = None, arg_quality = 85, arg_quality_avif = 30, arg_ssim = Fin (98 / 100),
      arg_webp = True, arg_avif = True\<rparr>"

definition ex_cbins :: bins where
  "ex_cbins = ex_bins\<lparr>bin_cjpeg := Some ''cjpeg''\<rparr>"

definition ex_batch :: "path list" where
  "ex_batch = [(InputDir, ''a.png''), (InputDir, ''gone.png'')]"

section \<open>Properties\<close>

subsection \<open>Integer formatting is injective\<close>

lemma str_nat_small: "n < 10 \<Longrightarrow> str_nat n = [digit_char n]"
  by (subst str_nat.simps) simp

lemma str_nat_big: "\<not> n < 10 \<Longrightarrow> str_nat n = str_nat (n div 10) @ [digit_char (n mod 10)]"
  by (subst str_nat.simps) simp

lemma str_nat_nonempty: "str_nat n \<noteq> []" "[] \<noteq> str_nat n"
  by (cases "n < 10"; simp add: str_nat_small str_nat_big)+

lemma digit_char_inj: "a < 10 \<Longrightarrow> b < 10 \<Longrightarrow> digit_char a = digit_char b \<Longrightarrow> a = b"
  unfolding digit_char_def
  by (simp add: char_of_eq_iff take_bit_nat_eq_self)

lemma str_nat_inj: "str_nat n = str_nat m \<Longrightarrow> n = m"
proof (induction n arbitrary: m rule: str_nat.induct)
  case (1 n)
  show ?case
  proof (cases "n < 10")
    case True
    show ?thesis
    proof (cases "m < 10")
      case True
      with \<open>n < 10\<close> 1(2) show ?thesis
        by (simp add: str_nat_small digit_char_inj)
    next
      case False
      with \<open>n < 10\<close> 1(2) show ?thesis
        by (simp add: str_nat_small str_nat_big str_nat_nonempty)
    qed
  next
    case False
    show ?thesis
    proof (cases "m < 10")
      case True
      with False 1(2) show ?thesis
        by (simp add: str_nat_small str_nat_big str_nat_nonempty)
    next
      case m: False
      from 1(2) False m
      have "str_nat (n div 10) = str_nat (m div 10)"
        and d: "digit_char (n mod 10) = digit_char (m mod 10)"
        by (simp_all add: str_nat_big)
      with 1(1)[OF False] have "n div 10 = m div 10" by blast
      moreover from d have "n mod 10 = m mod 10" by (simp add: digit_char_inj)
      ultimately show ?thesis by (metis div_mult_mod_eq)
    qed
  qed
qed

lemma str_nat_no_minus: "CHR ''-'' \<notin> set (str_nat n)"
proof (induction n rule: str_nat.induct)
  case (1 n)
  have d: "\<And>k. k < 10 \<Longrightarrow> digit_char k \<noteq> CHR ''-''"
    unfolding digit_char_def by (simp add: char_of_eq_iff take_bit_nat_eq_self)
  show ?case
  proof (cases "n < 10")
    case True
    then show ?thesis using d[of n] by (auto simp add: str_nat_small)
  next
    case False
    then show ?thesis using 1 d[of "n mod 10"] by (auto simp add: str_nat_big)
  qed
qed

lemma str_int_inj: "str_int i = str_int j \<Longrightarrow> i = j"
proof -
  assume eq: "str_int i = str_int j"
  have hd_nat: "\<And>n. hd (str_nat n) \<noteq> CHR ''-''"
    using str_nat_no_minus str_nat_nonempty by (metis hd_in_set)
  show ?thesis
  proof (cases "i < 0")
    case True
    show ?thesis
    proof (cases "j < 0")
      case j: True
      with True eq have "nat (- i) = nat (- j)" by (simp add: str_int_def str_nat_inj)
      with True j show ?thesis by simp
    next
      case False
      with True eq have "hd (str_nat (nat j)) = CHR ''-''"
        by (simp add: str_int_def) (metis list.sel(1))
      with hd_nat[of "nat j"] show ?thesis by simp
    qed
  next
    case False
    show ?thesis
    proof (cases "j < 0")
      case True
      with False eq have "hd (str_nat (nat i)) = CHR ''-''"
        by (simp add: str_int_def)
      with hd_nat[of "nat i"] show ?thesis by simp
    next
      case j: False
      with False eq have "nat i = nat j" by (simp add: str_int_def str_nat_inj)
      with False j show ?thesis by simp
    qed
  qed
qed

lemma cand_name_inj: "cand_name q = cand_name q' \<Longrightarrow> q = q'"
  by (simp add: cand_name_def str_int_inj)

subsection \<open>The abstract binary search\<close>

lemma bisect_done: "\<not> lo \<le> hi \<Longrightarrow> bisect P lo hi best n = (best, n)"
  by (subst bisect.simps) simp

lemma bisect_pass:
  "lo \<le> hi \<Longrightarrow> P ((lo + hi) div 2) \<Longrightarrow>
   bisect P lo hi best n = bisect P lo ((lo + hi) div 2 - 1) (Some ((lo + hi) div 2)) (Suc n)"
  by (subst bisect.simps) (simp add: Let_def)

lemma bisect_fail:
  "lo \<le> hi \<Longrightarrow> \<not> P ((lo + hi) div 2) \<Longrightarrow>
   bisect P lo hi best n = bisect P ((lo + hi) div 2 + 1) hi best (Suc n)"
  by (subst bisect.simps) (simp add: Let_def)

lemma floorlog_half: "0 < k \<Longrightarrow> m \<le> k div 2 \<Longrightarrow> Suc (floorlog 2 m) \<le> floorlog 2 k"
  using floorlog_mono[of m "k div 2" 2] by (subst (2) compute_floorlog) simp

lemma bisect_attempts: "snd (bisect P lo hi best n) \<le> n + floorlog 2 (nat (hi - lo + 1))"
proof (induction P lo hi best n rule: bisect.induct)
  case (1 P lo hi best n)
  let ?mid = "(lo + hi) div 2"
  show ?case
  proof (cases "lo \<le> hi")
    case False
    then show ?thesis by (simp add: bisect_done)
  next
    case True
    then have pos: "0 < nat (hi - lo + 1)" by simp
    show ?thesis
    proof (cases "P ?mid")
      case pass: True
      have "nat (?mid - 1 - lo + 1) \<le> nat (hi - lo + 1) div 2"
        using True by (simp add: nat_le_iff)
      from floorlog_half[OF pos this] 1(1)[OF True refl pass]
      show ?thesis using True pass by (simp add: bisect_pass)
    next
      case fail: False
      have "nat (hi - (?mid + 1) + 1) \<le> nat (hi - lo + 1) div 2"
        using True by (simp add: nat_le_iff)
      from floorlog_half[OF pos this] 1(2)[OF True refl fail]
      show ?thesis using True fail by (simp add: bisect_fail)
    qed
  qed
qed



subsection \<open>The command runner\<close>

lemma run_cmd_returns: "\<exists>ok nt. fst (run_cmd e cmd outs t w) = Inr (ok, nt)"
  by (auto simp: run_cmd_def run_cmd_body_def index0_def Let_def
      split: prod.splits proc_outcome.splits sum.splits option.splits list.splits exn.splits if_splits)

lemma run_cmd_frame:
  "p' \<notin> set (case outs of None \<Rightarrow> [] | Some ps \<Rightarrow> ps) \<Longrightarrow> files (snd (run_cmd e cmd outs t w)) p' = files w p'"
  by (auto simp: run_cmd_def run_cmd_body_def index0_def child_writes_def Let_def
      split: prod.splits proc_outcome.splits sum.splits option.splits list.splits exn.splits if_splits)

lemma run_cmd_tmp_next: "tmp_next (snd (run_cmd e cmd outs t w)) = tmp_next w"
  by (auto simp: run_cmd_def run_cmd_body_def index0_def child_writes_def Let_def
      split: prod.splits proc_outcome.splits sum.splits option.splits list.splits exn.splits if_splits)

lemma run_cmd_ok_output:
  "run_cmd e cmd (Some [p]) t w = (Inr (True, nt), w') \<Longrightarrow> \<exists>b. files w' p = Some b \<and> b \<noteq> []"
  by (auto simp: run_cmd_def run_cmd_body_def index0_def child_writes_def missing_output_def Let_def
      split: prod.splits proc_outcome.splits sum.splits option.splits list.splits exn.splits if_splits)

lemma run_cmd_determined:
  "files w1 p = files w2 p \<Longrightarrow>
   fst (run_cmd e cmd (Some [p]) t w1) = fst (run_cmd e cmd (Some [p]) t w2) \<and>
   files (snd (run_cmd e cmd (Some [p]) t w1)) p = files (snd (run_cmd e cmd (Some [p]) t w2)) p"
  by (auto simp: run_cmd_def run_cmd_body_def index0_def child_writes_def missing_output_def Let_def
      split: prod.splits proc_outcome.splits sum.splits option.splits list.splits exn.splits if_splits)

subsection \<open>Encoder adapters and the metrics closure\<close>

lemma run_cmd_adapter:
  "encoder_adapter (\<lambda>q p w. run_cmd e (cmd q p) (Some [p]) t w) inp"
  unfolding encoder_adapter_def
proof (intro allI conjI impI)
  fix q :: int and p :: path and w :: world
  show "\<exists>ok nt. fst (run_cmd e (cmd q p) (Some [p]) t w) = Inr (ok, nt)"
    by (rule run_cmd_returns)
  show "tmp_next (snd (run_cmd e (cmd q p) (Some [p]) t w)) = tmp_next w"
    by (rule run_cmd_tmp_next)
next
  fix q :: int and p p' :: path and w :: world
  assume "p' \<noteq> p"
  then show "files (snd (run_cmd e (cmd q p) (Some [p]) t w)) p' = files w p'"
    by (simp add: run_cmd_frame)
next
  fix q :: int and p :: path and w :: world and nt :: msg
  assume "fst (run_cmd e (cmd q p) (Some [p]) t w) = Inr (True, nt)"
  then have "run_cmd e (cmd q p) (Some [p]) t w = (Inr (True, nt), snd (run_cmd e (cmd q p) (Some [p]) t w))"
    by (metis prod.collapse)
  from run_cmd_ok_output[OF this]
  show "files (snd (run_cmd e (cmd q p) (Some [p]) t w)) p \<noteq> None" by auto
next
  fix q :: int and p :: path and w w2 :: world
  assume "files w p = files w2 p \<and> files w inp = files w2 inp"
  then have eq: "files w p = files w2 p" by simp
  from run_cmd_determined[OF eq]
  show "fst (run_cmd e (cmd q p) (Some [p]) t w) = fst (run_cmd e (cmd q p) (Some [p]) t w2)"
    and "files (snd (run_cmd e (cmd q p) (Some [p]) t w)) p = files (snd (run_cmd e (cmd q p) (Some [p]) t w2)) p"
    by simp_all
qed

lemma pillow_save_jpeg_adapter: "encoder_adapter (\<lambda>q p w. pillow_save_jpeg e inp p q k w) inp"
  unfolding encoder_adapter_def
  by (auto simp: pillow_save_jpeg_def split: option.splits pil_outcome.splits)

lemma pillow_save_webp_adapter: "encoder_adapter (\<lambda>q p w. pillow_save_webp e inp p q w) inp"
  unfolding encoder_adapter_def
  by (auto simp: pillow_save_webp_def split: option.splits pil_outcome.splits)

lemma make_jpeg_adapter: "encoder_adapter (make_jpeg e b a work_in) work_in"
proof (cases "bin_cjpeg b")
  case None
  then have "make_jpeg e b a work_in = (\<lambda>q p w. pillow_save_jpeg e work_in p q (keep_exif a) w)"
    by (simp add: make_jpeg_def fun_eq_iff)
  then show ?thesis by (simp add: pillow_save_jpeg_adapter)
next
  case (Some c)
  then have "make_jpeg e b a work_in =
     (\<lambda>q p w. run_cmd e [Str c, Str ''-quality'', IntArg q, Str ''-optimize'', Str ''-progressive'',
                Str ''-sample'', Str ''1x1'', Str ''-outfile'', PathArg p, PathArg work_in]
       (Some [p]) 60 w)"
    by (simp add: make_jpeg_def mozjpeg_save_def fun_eq_iff)
  then show ?thesis by (simp add: run_cmd_adapter)
qed

lemma make_webp_adapter: "encoder_adapter (make_webp e b work_in) work_in"
proof (cases "bin_cwebp b")
  case None
  then have "make_webp e b work_in = (\<lambda>q p w. pillow_save_webp e work_in p q w)"
    by (simp add: make_webp_def fun_eq_iff)
  then show ?thesis by (simp add: pillow_save_webp_adapter)
next
  case (Some c)
  then have "make_webp e b work_in =
     (\<lambda>q p w. run_cmd e [Str c, Str ''-q'', IntArg q, PathArg work_in, Str ''-o'', PathArg p]
       (Some [p]) 60 w)"
    by (simp add: make_webp_def cwebp_save_def fun_eq_iff)
  then show ?thesis by (simp add: run_cmd_adapter)
qed

lemma make_avif_adapter: "encoder_adapter (make_avif e avifenc work_in) work_in"
proof -
  have "make_avif e avifenc work_in =
     (\<lambda>q p w. run_cmd e [Str avifenc, Str ''--min'', IntArg (avif_cq q), Str ''--max'', IntArg (avif_cq q),
                 PathArg work_in, PathArg p] (Some [p]) 60 w)"
    by (simp add: make_avif_def avifenc_save_def fun_eq_iff Let_def)
  then show ?thesis by (simp add: run_cmd_adapter)
qed

lemma run_cmd_no_outputs:
  "fst (run_cmd e cmd None t w1) = fst (run_cmd e cmd None t w2)"
  "files (snd (run_cmd e cmd None t w)) = files w"
  by (auto simp: run_cmd_def run_cmd_body_def index0_def child_writes_def Let_def
      split: prod.splits proc_outcome.splits sum.splits option.splits list.splits exn.splits if_splits)

lemma run_butteraugli_facts:
  "fst (run_butteraugli e orig cand bb w1) = fst (run_butteraugli e orig cand bb w2)"
  "files (snd (run_butteraugli e orig cand bb w)) = files w"
  "tmp_next (snd (run_butteraugli e orig cand bb w)) = tmp_next w"
proof -
  show "fst (run_butteraugli e orig cand bb w1) = fst (run_butteraugli e orig cand bb w2)"
  proof (cases bb)
    case None
    then show ?thesis by (simp add: run_butteraugli_def)
  next
    case (Some b)
    let ?c = "[Str b, PathArg orig, PathArg cand]"
    have "fst (run_cmd e ?c None 30 w1) = fst (run_cmd e ?c None 30 w2)"
      by (rule run_cmd_no_outputs)
    then show ?thesis using Some
      by (cases "run_cmd e ?c None 30 w1"; cases "run_cmd e ?c None 30 w2")
         (auto simp: run_butteraugli_def split: sum.splits msg.splits)
  qed
  show "files (snd (run_butteraugli e orig cand bb w)) = files w"
    using run_cmd_no_outputs(2)[of e _ 30 w]
    by (auto simp: run_butteraugli_def split: option.splits prod.splits sum.splits msg.splits)
       (metis snd_conv)+
  show "tmp_next (snd (run_butteraugli e orig cand bb w)) = tmp_next w"
    using run_cmd_tmp_next[of e _ None 30 w]
    by (auto simp: run_butteraugli_def split: option.splits prod.splits sum.splits msg.splits)
       (metis snd_conv)+
qed

lemma metrics_fn_files:
  "files (snd (metrics_fn e orig cand bb w)) = files w"
  "tmp_next (snd (metrics_fn e orig cand bb w)) = tmp_next w"
  using run_butteraugli_facts(2,3)[of e orig cand bb w]
  by (auto simp: metrics_fn_def Let_def split: option.splits prod.splits)

lemma metrics_fn_determined:
  assumes "files w1 orig = files w2 orig" "files w1 cand = files w2 cand"
  shows "fst (metrics_fn e orig cand bb w1) = fst (metrics_fn e orig cand bb w2)"
  using assms run_butteraugli_facts(1)[of e orig cand bb w1 w2]
  by (auto simp: metrics_fn_def Let_def compute_mse_psnr_def compute_ssim_skimage_def
      split: option.splits prod.splits)

lemma adapterD:
  assumes "encoder_adapter mk inp"
  shows "\<exists>ok nt. fst (mk q p w) = Inr (ok, nt)"
    and "p' \<noteq> p \<Longrightarrow> files (snd (mk q p w)) p' = files w p'"
    and "tmp_next (snd (mk q p w)) = tmp_next w"
    and "fst (mk q p w) = Inr (True, nt) \<Longrightarrow> files (snd (mk q p w)) p \<noteq> None"
    and "files w p = files w2 p \<Longrightarrow> files w inp = files w2 inp \<Longrightarrow>
           fst (mk q p w) = fst (mk q p w2) \<and>
           files (snd (mk q p w)) p = files (snd (mk q p w2)) p"
proof -
  from assms have a: "(\<exists>ok nt. fst (mk q p w) = Inr (ok, nt)) \<and>
        (\<forall>p'. p' \<noteq> p \<longrightarrow> files (snd (mk q p w)) p' = files w p') \<and>
        tmp_next (snd (mk q p w)) = tmp_next w \<and>
        (\<forall>nt. fst (mk q p w) = Inr (True, nt) \<longrightarrow> files (snd (mk q p w)) p \<noteq> None) \<and>
        (\<forall>w2. files w p = files w2 p \<and> files w inp = files w2 inp \<longrightarrow>
           fst (mk q p w) = fst (mk q p w2) \<and>
           files (snd (mk q p w)) p = files (snd (mk q p w2)) p)"
    unfolding encoder_adapter_def
    by (drule_tac x = q in spec, drule_tac x = p in spec, drule_tac x = w in spec)
  from a show "\<exists>ok nt. fst (mk q p w) = Inr (ok, nt)" by (rule conjunct1)
  from a have b: "(\<forall>p'. p' \<noteq> p \<longrightarrow> files (snd (mk q p w)) p' = files w p') \<and>
        tmp_next (snd (mk q p w)) = tmp_next w \<and>
        (\<forall>nt. fst (mk q p w) = Inr (True, nt) \<longrightarrow> files (snd (mk q p w)) p \<noteq> None) \<and>
        (\<forall>w2. files w p = files w2 p \<and> files w inp = files w2 inp \<longrightarrow>
           fst (mk q p w) = fst (mk q p w2) \<and>
           files (snd (mk q p w)) p = files (snd (mk q p w2)) p)"
    by (rule conjunct2)
  from b[THEN conjunct1] show "p' \<noteq> p \<Longrightarrow> files (snd (mk q p w)) p' = files w p'" by blast
  from b[THEN conjunct2, THEN conjunct1] show "tmp_next (snd (mk q p w)) = tmp_next w" .
  from b[THEN conjunct2, THEN conjunct2, THEN conjunct1]
  show "fst (mk q p w) = Inr (True, nt) \<Longrightarrow> files (snd (mk q p w)) p \<noteq> None"
    by blast
  from b[THEN conjunct2, THEN conjunct2, THEN conjunct2]
  show "files w p = files w2 p \<Longrightarrow> files w inp = files w2 inp \<Longrightarrow>
           fst (mk q p w) = fst (mk q p w2) \<and>
           files (snd (mk q p w)) p = files (snd (mk q p w2)) p"
    by blast
qed

subsection \<open>The search loop computes the abstract binary search\<close>

lemma attempt_step:
  assumes ad: "encoder_adapter mk inp"
      and dirs: "fst orig \<noteq> tmpdir"
      and J: "files w (tmpdir, cand_name mid) = files w0 (tmpdir, cand_name mid)"
             "files w orig = files w0 orig" "files w inp = files w0 inp"
  shows "\<exists>ok nt w1 m w2.
           mk mid (tmpdir, cand_name mid) w = (Inr (ok, nt), w1) \<and>
           metrics_fn e orig (tmpdir, cand_name mid) bb w1 = (m, w2) \<and>
           (ok \<and> passes_threshold a m) = attempt_passes mk (metrics_fn e) orig a bb tmpdir w0 mid \<and>
           (\<forall>p. p \<noteq> (tmpdir, cand_name mid) \<longrightarrow> files w1 p = files w p) \<and>
           files w2 = files w1 \<and> tmp_next w1 = tmp_next w \<and> tmp_next w2 = tmp_next w \<and>
           (ok \<longrightarrow> files w1 (tmpdir, cand_name mid) \<noteq> None)"
proof -
  let ?cand = "(tmpdir, cand_name mid)"
  from adapterD(1)[OF ad] obtain ok nt where r: "fst (mk mid ?cand w) = Inr (ok, nt)"
    by blast
  define w1 where "w1 = snd (mk mid ?cand w)"
  define w0' where "w0' = snd (mk mid ?cand w0)"
  have mk: "mk mid ?cand w = (Inr (ok, nt), w1)"
    using r w1_def by (metis prod.collapse)
  from adapterD(5)[OF ad J(1,3)]
  have same: "fst (mk mid ?cand w) = fst (mk mid ?cand w0)"
    and out: "files w1 ?cand = files w0' ?cand"
    unfolding w1_def w0'_def by blast+
  from same r have mk0: "mk mid ?cand w0 = (Inr (ok, nt), w0')"
    using w0'_def by (metis prod.collapse)
  have frame: "files w1 p = files w p" if "p \<noteq> ?cand" for p
    unfolding w1_def using that by (rule adapterD(2)[OF ad])
  have frame0: "files w0' p = files w0 p" if "p \<noteq> ?cand" for p
    unfolding w0'_def using that by (rule adapterD(2)[OF ad])
  have tn: "tmp_next w1 = tmp_next w"
    unfolding w1_def by (rule adapterD(3)[OF ad])
  have ex: "files w1 ?cand \<noteq> None" if ok
    unfolding w1_def using r that by (intro adapterD(4)[OF ad, of _ _ _ nt]) simp
  obtain m w2 where mf: "metrics_fn e orig ?cand bb w1 = (m, w2)"
    by (cases "metrics_fn e orig ?cand bb w1") auto
  from dirs have ne: "orig \<noteq> ?cand" by auto
  have "files w1 orig = files w0' orig"
    using frame[OF ne] frame0[OF ne] J(2) by simp
  from metrics_fn_determined[OF this out, of e bb] mf
  have m: "fst (metrics_fn e orig ?cand bb w0') = m" by simp
  have P: "(ok \<and> passes_threshold a m) = attempt_passes mk (metrics_fn e) orig a bb tmpdir w0 mid"
    using mk0 m by (cases ok) (simp_all add: attempt_passes_def)
  from metrics_fn_files[of e orig ?cand bb w1] mf
  have w2: "files w2 = files w1" "tmp_next w2 = tmp_next w1" by simp_all
  show ?thesis
    apply (rule exI[of _ ok], rule exI[of _ nt], rule exI[of _ w1], rule exI[of _ m], rule exI[of _ w2])
    using mk mf P frame tn ex w2 by simp
qed

lemma bsq_loop_unfold_done:
  "\<not> lo \<le> hi \<Longrightarrow> bsq_loop mk mf orig a bb tmpdir lo hi best n w = (Inr best, n, w)"
  by (subst bsq_loop.simps) simp

lemma bsq_loop_unfold_step:
  assumes "lo \<le> hi"
      and "mk ((lo + hi) div 2) (tmpdir, cand_name ((lo + hi) div 2)) w = (Inr (ok, nt), w1)"
      and "mf orig (tmpdir, cand_name ((lo + hi) div 2)) bb w1 = (m, w2)"
  shows "bsq_loop mk mf orig a bb tmpdir lo hi best n w =
     (if \<not> ok then bsq_loop mk mf orig a bb tmpdir ((lo + hi) div 2 + 1) hi best (Suc n) w1
      else if passes_threshold a m then
        bsq_loop mk mf orig a bb tmpdir lo ((lo + hi) div 2 - 1)
          (Some ((lo + hi) div 2, (tmpdir, cand_name ((lo + hi) div 2)), m)) (Suc n) w2
      else bsq_loop mk mf orig a bb tmpdir ((lo + hi) div 2 + 1) hi best (Suc n) w2)"
  using assms by (subst bsq_loop.simps) (simp add: Let_def)

lemma bsq_loop_sim:
  assumes ad: "encoder_adapter mk inp"
      and dirs: "fst orig \<noteq> tmpdir" "fst inp \<noteq> tmpdir"
      and J: "\<forall>q. lo \<le> q \<and> q \<le> hi \<longrightarrow>
                files w (tmpdir, cand_name q) = files w0 (tmpdir, cand_name q)"
             "files w orig = files w0 orig" "files w inp = files w0 inp"
      and B: "\<forall>b p m. best = Some (b, p, m) \<longrightarrow>
                p = (tmpdir, cand_name b) \<and> files w p \<noteq> None \<and> \<not> (lo \<le> b \<and> b \<le> hi)"
  shows "\<exists>best' n' w'.
           bsq_loop mk (metrics_fn e) orig a bb tmpdir lo hi best n w = (Inr best', n', w') \<and>
           (map_option fst best', n') =
             bisect (attempt_passes mk (metrics_fn e) orig a bb tmpdir w0) lo hi (map_option fst best) n \<and>
           (\<forall>b p m. best' = Some (b, p, m) \<longrightarrow> p = (tmpdir, cand_name b) \<and> files w' p \<noteq> None) \<and>
           (\<forall>p. fst p \<noteq> tmpdir \<longrightarrow> files w' p = files w p) \<and>
           tmp_next w' = tmp_next w"
  using J B
proof (induction "nat (hi - lo + 1)" arbitrary: lo hi best n w rule: less_induct)
  case less
  let ?P = "attempt_passes mk (metrics_fn e) orig a bb tmpdir w0"
  let ?mid = "(lo + hi) div 2"
  let ?cand = "(tmpdir, cand_name ?mid)"
  note J = less.prems(1,2,3) and B = less.prems(4)
  show ?case
  proof (cases "lo \<le> hi")
    case False
    have "bsq_loop mk (metrics_fn e) orig a bb tmpdir lo hi best n w = (Inr best, n, w)"
      using False by (rule bsq_loop_unfold_done)
    moreover have "(map_option fst best, n) = bisect ?P lo hi (map_option fst best) n"
      using False by (simp add: bisect_done)
    moreover have "\<forall>b p m. best = Some (b, p, m) \<longrightarrow> p = (tmpdir, cand_name b) \<and> files w p \<noteq> None"
      using B by blast
    ultimately show ?thesis by blast
  next
    case True
    then have mid: "lo \<le> ?mid" "?mid \<le> hi" by simp_all
    from J(1) mid have Jm: "files w ?cand = files w0 ?cand" by blast
    from attempt_step[OF ad dirs(1) Jm J(2,3), of e bb a]
    obtain ok nt w1 m w2 where
      mk: "mk ?mid ?cand w = (Inr (ok, nt), w1)" and
      mf: "metrics_fn e orig ?cand bb w1 = (m, w2)" and
      P: "(ok \<and> passes_threshold a m) = ?P ?mid" and
      frame0: "\<forall>p. p \<noteq> ?cand \<longrightarrow> files w1 p = files w p" and
      w2: "files w2 = files w1" and
      tn: "tmp_next w1 = tmp_next w" "tmp_next w2 = tmp_next w" and
      ex: "ok \<longrightarrow> files w1 ?cand \<noteq> None"
      by blast
    have frame: "files w1 p = files w p" if "p \<noteq> ?cand" for p
      using frame0 that by blast
    note unfold = bsq_loop_unfold_step[where mk = mk and mf = "metrics_fn e" and orig = orig
        and tmpdir = tmpdir and bb = bb and a = a and best = best and n = n, OF True mk mf]
    have away: "(tmpdir, cand_name q) \<noteq> ?cand" if "q \<noteq> ?mid" for q
      using that cand_name_inj by auto
    have o_ne: "orig \<noteq> ?cand" and i_ne: "inp \<noteq> ?cand" using dirs by auto
    \<comment> \<open>the invariant on a sub-range that excludes the midpoint, in either later state\<close>
    have Jsub: "\<forall>q. lo' \<le> q \<and> q \<le> hi' \<longrightarrow>
                  files wn (tmpdir, cand_name q) = files w0 (tmpdir, cand_name q)"
      if "lo \<le> lo'" "hi' \<le> hi" "?mid < lo' \<or> hi' < ?mid" "files wn = files w1" for lo' hi' wn
    proof (intro allI impI)
      fix q assume q: "lo' \<le> q \<and> q \<le> hi'"
      from q that(1,2) have "lo \<le> q \<and> q \<le> hi" by linarith
      from q that(3) have "q \<noteq> ?mid" by linarith
      note \<open>q \<noteq> ?mid\<close> \<open>lo \<le> q \<and> q \<le> hi\<close>
      with frame[OF away] J(1) that(4) show "files wn (tmpdir, cand_name q) = files w0 (tmpdir, cand_name q)"
        by simp
    qed
    have Jo: "files wn orig = files w0 orig" "files wn inp = files w0 inp"
      if "files wn = files w1" for wn
      using that frame[OF o_ne] frame[OF i_ne] J(2,3) by simp_all
    have Bold: "\<forall>b p m'. best = Some (b, p, m') \<longrightarrow>
                  p = (tmpdir, cand_name b) \<and> files wn p \<noteq> None \<and> \<not> (lo' \<le> b \<and> b \<le> hi')"
      if "lo \<le> lo'" "hi' \<le> hi" "files wn = files w1" for lo' hi' wn
    proof (intro allI impI)
      fix b p m' assume eq: "best = Some (b, p, m')"
      with B have b: "p = (tmpdir, cand_name b)" "files w p \<noteq> None" "\<not> (lo \<le> b \<and> b \<le> hi)"
        by blast+
      from b(3) mid have "b \<noteq> ?mid" by blast
      from away[OF this] b(1) have "p \<noteq> ?cand" by simp
      from frame[OF this] that(3) b(2) have "files wn p \<noteq> None" by simp
      moreover from b(3) that(1,2) have "\<not> (lo' \<le> b \<and> b \<le> hi')" by linarith
      ultimately show "p = (tmpdir, cand_name b) \<and> files wn p \<noteq> None \<and> \<not> (lo' \<le> b \<and> b \<le> hi')"
        using b(1) by blast
    qed
    have frame_out: "files wn p = files w p" if "fst p \<noteq> tmpdir" "files wn = files w1" for p wn
    proof -
      from that(1) have "p \<noteq> ?cand" by auto
      from frame[OF this] that(2) show ?thesis by simp
    qed
    show ?thesis
    proof (cases "ok \<and> passes_threshold a m")
      case pass: True
      with P have Pm: "?P ?mid" by simp
      let ?best = "Some (?mid, ?cand, m)"
      have step: "bsq_loop mk (metrics_fn e) orig a bb tmpdir lo hi best n w =
                  bsq_loop mk (metrics_fn e) orig a bb tmpdir lo (?mid - 1) ?best (Suc n) w2"
        using unfold pass by simp
      have less: "nat (?mid - 1 - lo + 1) < nat (hi - lo + 1)" using True by simp
      have Bn: "\<forall>b p m'. ?best = Some (b, p, m') \<longrightarrow>
                  p = (tmpdir, cand_name b) \<and> files w2 p \<noteq> None \<and> \<not> (lo \<le> b \<and> b \<le> ?mid - 1)"
        using ex pass w2 by simp
      have sub: "lo \<le> lo" "?mid - 1 \<le> hi" "?mid < lo \<or> ?mid - 1 < ?mid" using mid by simp_all
      from less.hyps[OF less Jsub[OF sub w2] Jo[OF w2] Bn, of "Suc n"]
      obtain best' n' w' where r:
        "bsq_loop mk (metrics_fn e) orig a bb tmpdir lo (?mid - 1) ?best (Suc n) w2 = (Inr best', n', w')"
        "(map_option fst best', n') = bisect ?P lo (?mid - 1) (map_option fst ?best) (Suc n)"
        "\<forall>b p m. best' = Some (b, p, m) \<longrightarrow> p = (tmpdir, cand_name b) \<and> files w' p \<noteq> None"
        "\<forall>p. fst p \<noteq> tmpdir \<longrightarrow> files w' p = files w2 p"
        "tmp_next w' = tmp_next w2"
        by auto
      have "(map_option fst best', n') = bisect ?P lo hi (map_option fst best) n"
        using r(2) bisect_pass[where P = ?P, OF True Pm, of "map_option fst best" n] by simp
      moreover have "\<forall>p. fst p \<noteq> tmpdir \<longrightarrow> files w' p = files w p"
        using r(4) frame_out[OF _ w2] by simp
      moreover have "tmp_next w' = tmp_next w" using r(5) tn by simp
      ultimately show ?thesis using step r(1,3) by auto
    next
      case fail: False
      with P have Pm: "\<not> ?P ?mid" by simp
      define wn where "wn = (if ok then w2 else w1)"
      have wn: "files wn = files w1" "tmp_next wn = tmp_next w"
        using w2 tn by (simp_all add: wn_def)
      have step: "bsq_loop mk (metrics_fn e) orig a bb tmpdir lo hi best n w =
                  bsq_loop mk (metrics_fn e) orig a bb tmpdir (?mid + 1) hi best (Suc n) wn"
        using unfold fail by (simp add: wn_def)
      have less: "nat (hi - (?mid + 1) + 1) < nat (hi - lo + 1)" using True by simp
      have sub: "lo \<le> ?mid + 1" "hi \<le> hi" "?mid < ?mid + 1 \<or> hi < ?mid" using mid by simp_all
      from less.hyps[OF less Jsub[OF sub wn(1)] Jo[OF wn(1)] Bold[OF sub(1,2) wn(1)], of "Suc n"]
      obtain best' n' w' where r:
        "bsq_loop mk (metrics_fn e) orig a bb tmpdir (?mid + 1) hi best (Suc n) wn = (Inr best', n', w')"
        "(map_option fst best', n') = bisect ?P (?mid + 1) hi (map_option fst best) (Suc n)"
        "\<forall>b p m. best' = Some (b, p, m) \<longrightarrow> p = (tmpdir, cand_name b) \<and> files w' p \<noteq> None"
        "\<forall>p. fst p \<noteq> tmpdir \<longrightarrow> files w' p = files wn p"
        "tmp_next w' = tmp_next wn"
        by auto
      have "(map_option fst best', n') = bisect ?P lo hi (map_option fst best) n"
        using r(2) bisect_fail[where P = ?P, OF True Pm, of "map_option fst best" n] by simp
      moreover have "\<forall>p. fst p \<noteq> tmpdir \<longrightarrow> files w' p = files w p"
        using r(4) frame_out[OF _ wn(1)] by simp
      moreover have "tmp_next w' = tmp_next w" using r(5) wn(2) by simp
      ultimately show ?thesis using step r(1,3) by auto
    qed
  qed
qed

lemma quality_passes_eq:
  "quality_passes mk mf orig a bb w =
   attempt_passes mk mf orig a bb (SearchDir (tmp_next w)) (w\<lparr>tmp_next := Suc (tmp_next w)\<rparr>)"
  by (simp add: quality_passes_def mkdtemp_def fun_eq_iff)

lemma binary_search_quality_bisect:
  assumes ad: "encoder_adapter mk inp"
      and dirs: "fst orig \<noteq> SearchDir (tmp_next w)" "fst inp \<noteq> SearchDir (tmp_next w)"
  shows "\<exists>r n w'.
           binary_search_quality mk (metrics_fn e) orig lo hi a bb w = (Inr r, n, w') \<and>
           (\<forall>p. fst p \<noteq> SearchDir (tmp_next w) \<longrightarrow> files w' p = files w p) \<and>
           tmp_next w' = Suc (tmp_next w) \<and>
           n = snd (bisect (quality_passes mk (metrics_fn e) orig a bb w) lo hi None 0) \<and>
           (case fst (bisect (quality_passes mk (metrics_fn e) orig a bb w) lo hi None 0) of
              None \<Rightarrow> r = SearchFailure
            | Some q \<Rightarrow> (\<exists>m. r = SearchSuccess q (SearchDir (tmp_next w), best_name q) m) \<and>
                        files w' (SearchDir (tmp_next w), best_name q) \<noteq> None)"
proof -
  let ?tmp = "SearchDir (tmp_next w)"
  let ?w0 = "w\<lparr>tmp_next := Suc (tmp_next w)\<rparr>"
  let ?P = "quality_passes mk (metrics_fn e) orig a bb w"
  have P: "?P = attempt_passes mk (metrics_fn e) orig a bb ?tmp ?w0"
    by (rule quality_passes_eq)
  have B: "\<forall>b p m. (None :: best option) = Some (b, p, m) \<longrightarrow>
             p = (?tmp, cand_name b) \<and> files ?w0 p \<noteq> None \<and> \<not> (lo \<le> b \<and> b \<le> hi)"
    by simp
  from bsq_loop_sim[OF ad dirs _ _ _ B, of ?w0 e a bb 0]
  obtain best' n' w1 where r:
    "bsq_loop mk (metrics_fn e) orig a bb ?tmp lo hi None 0 ?w0 = (Inr best', n', w1)"
    "(map_option fst best', n') = bisect ?P lo hi None 0"
    "\<forall>b p m. best' = Some (b, p, m) \<longrightarrow> p = (?tmp, cand_name b) \<and> files w1 p \<noteq> None"
    "\<forall>p. fst p \<noteq> ?tmp \<longrightarrow> files w1 p = files ?w0 p"
    "tmp_next w1 = tmp_next ?w0"
    unfolding P by auto
  from r(2) have fstb: "fst (bisect ?P lo hi None 0) = map_option fst best'"
    and sndb: "snd (bisect ?P lo hi None 0) = n'"
    by (metis fst_conv, metis snd_conv)
  show ?thesis
  proof (cases best')
    case None
    then have "binary_search_quality mk (metrics_fn e) orig lo hi a bb w = (Inr SearchFailure, n', w1)"
      using r(1) by (simp add: binary_search_quality_def mkdtemp_def)
    moreover from r(4) have "\<forall>p. fst p \<noteq> ?tmp \<longrightarrow> files w1 p = files w p" by simp
    ultimately show ?thesis using None r(5) fstb sndb by simp
  next
    case (Some t)
    obtain q p m where t: "t = (q, p, m)" by (cases t) auto
    with Some r(3) have p: "p = (?tmp, cand_name q)" and ex: "files w1 p \<noteq> None" by blast+
    then obtain bs where bs: "files w1 p = Some bs" by auto
    let ?dest = "(?tmp, best_name q)"
    define w2 where "w2 = w1\<lparr>files := ((files w1)(p := None))(?dest \<mapsto> bs)\<rparr>"
    have mv: "shutil_move p ?dest w1 = (Inr (), w2)"
      using bs by (simp add: shutil_move_def w2_def)
    have res: "binary_search_quality mk (metrics_fn e) orig lo hi a bb w =
                 (Inr (SearchSuccess q ?dest m), n', w2)"
      using r(1) Some t mv by (simp add: binary_search_quality_def mkdtemp_def)
    have fr: "files w2 p' = files w p'" if "fst p' \<noteq> ?tmp" for p'
    proof -
      from that p have "p' \<noteq> p" "p' \<noteq> ?dest" by auto
      then have "files w2 p' = files w1 p'" by (simp add: w2_def)
      moreover from r(4) that have "files w1 p' = files ?w0 p'" by blast
      ultimately show ?thesis by simp
    qed
    have "files w2 ?dest \<noteq> None" by (simp add: w2_def)
    moreover have "tmp_next w2 = Suc (tmp_next w)" using r(5) by (simp add: w2_def)
    ultimately show ?thesis using res fr fstb sndb Some t by simp
  qed
qed

subsection \<open>The loop of find_best_jpeg computes the abstract binary search\<close>

lemma jpeg_cand_name_inj: "jpeg_cand_name q = jpeg_cand_name q' \<Longrightarrow> q = q'"
  by (simp add: jpeg_cand_name_def str_int_inj)





subsection \<open>Encode attempts and empty ranges\<close>







subsection \<open>The example run\<close>



subsection \<open>Minimal passing quality, and failure when nothing passes\<close>






section \<open>The claims\<close>





text \<open>
  Claim C4, as stated, fails: a butteraugli score that is present is not always
  authoritative. The test of line 67 also requires \<^verbatim>\<open>args.target_butter\<close> to be truthy,
  so with \<^verbatim>\<open>--target-butter 0\<close> the score is ignored. Here the score 0.5 misses the
  target 0, yet the candidate passes, through the PSNR threshold (50 against 38).
\<close>

theorem butter_present_not_authoritative:
  "butter \<lparr>psnr = Some (Fin 50), ssim = None, butter = Some (Fin (1 / 2))\<rparr> = Some (Fin (1 / 2)) \<and>
   \<not> py_le (Fin (1 / 2)) (Fin 0) \<and>
   passes_threshold
     \<lparr>mode = Best, min_q = 30, max_q = 95, target_psnr = Fin 38, use_ssim = False,
      target_ssim = Fin (995 / 1000), use_butter = True, target_butter = Fin 0,
      keep_exif = False\<rparr>
     \<lparr>psnr = Some (Fin 50), ssim = None, butter = Some (Fin (1 / 2))\<rparr>"
  by (simp add: passes_threshold_def truthy_def py_ge_def or_0_def)

text \<open>
  Claim C4, amended. Exactly one threshold decides, by this priority: when the
  butteraugli target is non-zero and the butteraugli score is present, the candidate
  passes iff score \<open>\<le>\<close> target, whatever the other metrics are; otherwise, when SSIM is
  requested and present, iff SSIM \<open>\<ge>\<close> target, whatever the PSNR is; otherwise iff
  PSNR \<open>\<ge>\<close> target, a missing or zero PSNR counting as 0. A metric that is \<open>None\<close> falls
  through this order; no case raises.
\<close>

theorem threshold_priority:
  "(truthy (target_butter a) \<and> butter m = Some bs \<longrightarrow>
      passes_threshold a m = py_le bs (target_butter a) \<and>
      passes_threshold a (m\<lparr>psnr := p', ssim := s'\<rparr>) = passes_threshold a m) \<and>
   (\<not> (truthy (target_butter a) \<and> butter m \<noteq> None) \<and> use_ssim a \<and> ssim m = Some s \<longrightarrow>
      passes_threshold a m = py_ge s (target_ssim a) \<and>
      passes_threshold a (m\<lparr>psnr := p'\<rparr>) = passes_threshold a m) \<and>
   (\<not> (truthy (target_butter a) \<and> butter m \<noteq> None) \<and> \<not> (use_ssim a \<and> ssim m \<noteq> None) \<longrightarrow>
      passes_threshold a m = py_ge (or_0 (psnr m)) (target_psnr a)) \<and>
   or_0 None = Fin 0"
  by (auto simp: passes_threshold_def or_0_def)

text \<open>With the default targets: a butteraugli score of 0.8 decides against a poor PSNR;
  without it an SSIM of 0.999 decides; with neither, and no PSNR, the candidate fails.\<close>

theorem threshold_priority_witness:
  "passes_threshold
     \<lparr>mode = Best, min_q = 30, max_q = 95, target_psnr = Fin 38, use_ssim = True,
      target_ssim = Fin (995 / 1000), use_butter = True, target_butter = Fin 1,
      keep_exif = False\<rparr>
     \<lparr>psnr = Some (Fin 10), ssim = Some (Fin (1 / 2)), butter = Some (Fin (8 / 10))\<rparr> \<and>
   passes_threshold
     \<lparr>mode = Best, min_q = 30, max_q = 95, target_psnr = Fin 38, use_ssim = True,
      target_ssim = Fin (995 / 1000), use_butter = True, target_butter = Fin 1,
      keep_exif = False\<rparr>
     \<lparr>psnr = Some (Fin 10), ssim = Some (Fin (999 / 1000)), butter = None\<rparr> \<and>
   \<not> passes_threshold
     \<lparr>mode = Best, min_q = 30, max_q = 95, target_psnr = Fin 38, use_ssim = True,
      target_ssim = Fin (995 / 1000), use_butter = True, target_butter = Fin 1,
      keep_exif = False\<rparr>
     \<lparr>psnr = None, ssim = None, butter = None\<rparr>"
proof -
  let ?a = "\<lparr>mode = Best, min_q = 30, max_q = 95, target_psnr = Fin 38, use_ssim = True,
      target_ssim = Fin (995 / 1000), use_butter = True, target_butter = Fin 1,
      keep_exif = False\<rparr>"
  from threshold_priority[of ?a
      "\<lparr>psnr = Some (Fin 10), ssim = Some (Fin (1 / 2)), butter = Some (Fin (8 / 10))\<rparr>"
      "Fin (8 / 10)" None None "Fin 0"]
    threshold_priority[of ?a
      "\<lparr>psnr = Some (Fin 10), ssim = Some (Fin (999 / 1000)), butter = None\<rparr>"
      "Fin 0" None None "Fin (999 / 1000)"]
    threshold_priority[of ?a "\<lparr>psnr = None, ssim = None, butter = None\<rparr>"
      "Fin 0" None None "Fin 0"]
  show ?thesis by (simp add: truthy_def py_ge_def)
qed

text \<open>
  Claim C10. \<^verbatim>\<open>run_cmd\<close> returns a pair for every command list, list of expected
  outputs, timeout, environment and state: it never raises. The pair is
  \<^verbatim>\<open>(False, message)\<close> on a non-zero exit status, on an expected output that is missing
  or empty after the command ran, on a timeout (and then the child is killed), on a
  missing executable and on any other exception, the empty command list included.
\<close>

theorem run_cmd_total:
  "(\<exists>ok nt. fst (run_cmd e cmd outs t w) = Inr (ok, nt)) \<and>
   (cmd \<noteq> [] \<and> fst (popen e cmd t) = Exited rc out err \<and> rc \<noteq> 0 \<longrightarrow>
      fst (run_cmd e cmd outs t w) = Inr (False, CommandFailed rc (hd cmd) (out @ err))) \<and>
   (cmd \<noteq> [] \<and> fst (popen e cmd t) = Exited 0 out err \<and> outs = Some ps \<and> p \<in> set ps \<and>
    (files (snd (run_cmd e cmd outs t w)) p = None \<or> files (snd (run_cmd e cmd outs t w)) p = Some [])
    \<longrightarrow> (\<exists>p'. fst (run_cmd e cmd outs t w) = Inr (False, ExpectedOutputNotProduced p' (out @ err)))) \<and>
   (cmd \<noteq> [] \<and> fst (popen e cmd t) = TimedOut \<longrightarrow>
      fst (run_cmd e cmd outs t w) = Inr (False, CommandTimedOut t (hd cmd)) \<and>
      killed (snd (run_cmd e cmd outs t w)) = killed w @ [cmd]) \<and>
   (cmd \<noteq> [] \<and> fst (popen e cmd t) = NotFound \<longrightarrow>
      fst (run_cmd e cmd outs t w) = Inr (False, CommandNotFound (hd cmd))) \<and>
   (cmd \<noteq> [] \<and> fst (popen e cmd t) = Failed s \<longrightarrow>
      fst (run_cmd e cmd outs t w) = Inr (False, UnexpectedError (OtherException s))) \<and>
   (cmd = [] \<longrightarrow> fst (run_cmd e cmd outs t w) = Inr (False, UnexpectedError IndexError))"
proof (intro conjI impI)
  show "\<exists>ok nt. fst (run_cmd e cmd outs t w) = Inr (ok, nt)"
    by (rule run_cmd_returns)
next
  assume "cmd \<noteq> [] \<and> fst (popen e cmd t) = Exited rc out err \<and> rc \<noteq> 0"
  then show "fst (run_cmd e cmd outs t w) = Inr (False, CommandFailed rc (hd cmd) (out @ err))"
    by (cases cmd; cases "popen e cmd t")
       (auto simp: run_cmd_def run_cmd_body_def index0_def Let_def)
next
  assume h: "cmd \<noteq> [] \<and> fst (popen e cmd t) = Exited 0 out err \<and> outs = Some ps \<and> p \<in> set ps \<and>
    (files (snd (run_cmd e cmd outs t w)) p = None \<or> files (snd (run_cmd e cmd outs t w)) p = Some [])"
  obtain pr where po: "popen e cmd t = (Exited 0 out err, pr)"
    using h by (cases "popen e cmd t") auto
  let ?w' = "child_writes pr ps w"
  show "\<exists>p'. fst (run_cmd e cmd outs t w) = Inr (False, ExpectedOutputNotProduced p' (out @ err))"
  proof (cases "missing_output ?w' ps")
    case (Some p')
    with h po show ?thesis
      by (auto simp: run_cmd_def run_cmd_body_def Let_def)
  next
    case None
    with h po have "snd (run_cmd e cmd outs t w) = ?w'"
      by (auto simp: run_cmd_def run_cmd_body_def Let_def)
    with h have "files ?w' p = None \<or> files ?w' p = Some []" by simp
    then have "case files ?w' p of None \<Rightarrow> True | Some b \<Rightarrow> length b = 0" by auto
    moreover from h have "p \<in> set ps" by simp
    ultimately have "filter (\<lambda>p. case files ?w' p of None \<Rightarrow> True | Some b \<Rightarrow> length b = 0) ps \<noteq> []"
      unfolding filter_empty_conv by blast
    with None show ?thesis by (simp add: missing_output_def split: list.splits)
  qed
next
  assume h: "cmd \<noteq> [] \<and> fst (popen e cmd t) = TimedOut"
  then obtain c cs pr where c: "cmd = c # cs" "popen e (c # cs) t = (TimedOut, pr)"
    by (cases cmd; cases "popen e cmd t") auto
  then have "run_cmd e cmd outs t w =
      (Inr (False, CommandTimedOut t c),
       (child_writes pr (case outs of None \<Rightarrow> [] | Some ps \<Rightarrow> ps) w)
         \<lparr>killed := killed (child_writes pr (case outs of None \<Rightarrow> [] | Some ps \<Rightarrow> ps) w) @ [cmd]\<rparr>)"
    by (simp add: run_cmd_def run_cmd_body_def index0_def Let_def)
  moreover have "killed (child_writes pr ps' w) = killed w" for ps'
    by (simp add: child_writes_def split: option.splits)
  ultimately show "fst (run_cmd e cmd outs t w) = Inr (False, CommandTimedOut t (hd cmd))"
    and "killed (snd (run_cmd e cmd outs t w)) = killed w @ [cmd]"
    using c(1) by simp_all
next
  assume "cmd \<noteq> [] \<and> fst (popen e cmd t) = NotFound"
  then show "fst (run_cmd e cmd outs t w) = Inr (False, CommandNotFound (hd cmd))"
    by (cases cmd; cases "popen e cmd t")
       (auto simp: run_cmd_def run_cmd_body_def index0_def Let_def)
next
  assume "cmd \<noteq> [] \<and> fst (popen e cmd t) = Failed s"
  then show "fst (run_cmd e cmd outs t w) = Inr (False, UnexpectedError (OtherException s))"
    by (cases cmd; cases "popen e cmd t")
       (auto simp: run_cmd_def run_cmd_body_def index0_def Let_def)
next
  assume "cmd = []"
  then show "fst (run_cmd e cmd outs t w) = Inr (False, UnexpectedError IndexError)"
    by (simp add: run_cmd_def run_cmd_body_def)
qed

text \<open>The five failures, one command each, and the empty command list.\<close>

theorem run_cmd_total_witness:
  "fst (run_cmd ex_tools [Str ''fails''] None 60 ex_world) =
     Inr (False, CommandFailed 1 (Str ''fails'') ''outerr'') \<and>
   (\<exists>p'. fst (run_cmd ex_tools [Str ''quiet'', PathArg (OutputDir, ''x.jpg'')]
            (Some [(OutputDir, ''x.jpg'')]) 60 ex_world) =
          Inr (False, ExpectedOutputNotProduced p' [])) \<and>
   fst (run_cmd ex_tools [Str ''slow''] None 60 ex_world) =
     Inr (False, CommandTimedOut 60 (Str ''slow'')) \<and>
   killed (snd (run_cmd ex_tools [Str ''slow''] None 60 ex_world)) = [[Str ''slow'']] \<and>
   fst (run_cmd ex_tools [Str ''cjpeg''] None 60 ex_world) =
     Inr (False, CommandNotFound (Str ''cjpeg'')) \<and>
   fst (run_cmd ex_tools [Str ''crash''] None 60 ex_world) =
     Inr (False, UnexpectedError (OtherException ''permission denied'')) \<and>
   fst (run_cmd ex_tools [] None 60 ex_world) = Inr (False, UnexpectedError IndexError)"
proof -
  have po: "fst (popen ex_tools [Str ''fails''] 60) = Exited 1 ''out'' ''err''"
    "fst (popen ex_tools [Str ''quiet'', PathArg (OutputDir, ''x.jpg'')] 60) = Exited 0 [] []"
    "fst (popen ex_tools [Str ''slow''] 60) = TimedOut"
    "fst (popen ex_tools [Str ''cjpeg''] 60) = NotFound"
    "fst (popen ex_tools [Str ''crash''] 60) = Failed ''permission denied''"
    by (simp_all add: ex_tools_def)
  have missing: "files (snd (run_cmd ex_tools [Str ''quiet'', PathArg (OutputDir, ''x.jpg'')]
            (Some [(OutputDir, ''x.jpg'')]) 60 ex_world)) (OutputDir, ''x.jpg'') = None"
    by (simp add: run_cmd_frame run_cmd_def run_cmd_body_def ex_tools_def child_writes_def
        missing_output_def ex_world_def)
  note t = run_cmd_total[where e = ex_tools and t = 60 and w = ex_world]
  from t[where cmd = "[Str ''fails'']" and outs = None and rc = 1 and out = "''out''" and err = "''err''"]
    po(1)
  have a: "fst (run_cmd ex_tools [Str ''fails''] None 60 ex_world) =
     Inr (False, CommandFailed 1 (Str ''fails'') ''outerr'')" by simp
  from t[where cmd = "[Str ''quiet'', PathArg (OutputDir, ''x.jpg'')]"
      and outs = "Some [(OutputDir, ''x.jpg'')]" and ps = "[(OutputDir, ''x.jpg'')]"
      and p = "(OutputDir, ''x.jpg'')" and out = "[]" and err = "[]"] po(2) missing
  have b: "\<exists>p'. fst (run_cmd ex_tools [Str ''quiet'', PathArg (OutputDir, ''x.jpg'')]
            (Some [(OutputDir, ''x.jpg'')]) 60 ex_world) =
          Inr (False, ExpectedOutputNotProduced p' [])" by simp
  from t[where cmd = "[Str ''slow'']" and outs = None] po(3)
  have c: "fst (run_cmd ex_tools [Str ''slow''] None 60 ex_world) =
     Inr (False, CommandTimedOut 60 (Str ''slow''))"
    "killed (snd (run_cmd ex_tools [Str ''slow''] None 60 ex_world)) = [[Str ''slow'']]"
    by (simp_all add: ex_world_def)
  from t[where cmd = "[Str ''cjpeg'']" and outs = None] po(4)
  have d: "fst (run_cmd ex_tools [Str ''cjpeg''] None 60 ex_world) =
     Inr (False, CommandNotFound (Str ''cjpeg''))" by simp
  from t[where cmd = "[Str ''crash'']" and outs = None and s = "''permission denied''"] po(5)
  have e: "fst (run_cmd ex_tools [Str ''crash''] None 60 ex_world) =
     Inr (False, UnexpectedError (OtherException ''permission denied''))" by simp
  from t[where cmd = "[]" and outs = None]
  have f: "fst (run_cmd ex_tools [] None 60 ex_world) = Inr (False, UnexpectedError IndexError)"
    by simp
  from a b c d e f show ?thesis by blast
qed

subsection \<open>The selection of the smallest candidate\<close>

lemma py_min_by_first:
  "\<exists>i < length (m # xs).
      py_min_by key m xs = (m # xs) ! i \<and>
      (\<forall>x \<in> set (m # xs). key ((m # xs) ! i) \<le> key x) \<and>
      (\<forall>j < i. key ((m # xs) ! i) < key ((m # xs) ! j))"
proof (induction xs arbitrary: m rule: rev_induct)
  case Nil
  show ?case by simp
next
  case (snoc x xs)
  have step: "py_min_by key m (xs @ [x]) =
        (if key x < key (py_min_by key m xs) then x else py_min_by key m xs)" for m
    by (induction xs arbitrary: m) simp_all
  from snoc[of m] obtain i where i: "i < length (m # xs)" "py_min_by key m xs = (m # xs) ! i"
    "\<forall>y \<in> set (m # xs). key ((m # xs) ! i) \<le> key y"
    "\<forall>j < i. key ((m # xs) ! i) < key ((m # xs) ! j)"
    by blast
  let ?l = "m # xs @ [x]"
  have nth_old: "?l ! j = (m # xs) ! j" if "j < length (m # xs)" for j
    using that by (metis Cons_eq_appendI nth_append)
  show ?case
  proof (cases "key x < key (py_min_by key m xs)")
    case True
    let ?k = "length (m # xs)"
    have k: "?l ! ?k = x" by (metis Cons_eq_appendI nth_append_length)
    have "py_min_by key m (xs @ [x]) = ?l ! ?k" using True step k by simp
    moreover have "\<forall>y \<in> set ?l. key (?l ! ?k) \<le> key y"
      using True i(2,3) k by (auto simp del: nth_Cons_Suc)
    moreover have "\<forall>j < ?k. key (?l ! ?k) < key (?l ! j)"
    proof (intro allI impI)
      fix j assume j: "j < ?k"
      then have "(m # xs) ! j \<in> set (m # xs)" by (metis nth_mem)
      with i(3) have "key ((m # xs) ! i) \<le> key ((m # xs) ! j)" by blast
      with True i(2) nth_old[OF j] k show "key (?l ! ?k) < key (?l ! j)" by simp
    qed
    moreover have "?k < length ?l" by simp
    ultimately show ?thesis by blast
  next
    case False
    have "py_min_by key m (xs @ [x]) = ?l ! i" using False step i(2) nth_old[OF i(1)] by simp
    moreover have "\<forall>y \<in> set ?l. key (?l ! i) \<le> key y"
      using False i(2,3) nth_old[OF i(1)] by auto
    moreover have "\<forall>j < i. key (?l ! i) < key (?l ! j)"
    proof (intro allI impI)
      fix j assume j: "j < i"
      with i(1) have "j < length (m # xs)" by simp
      from nth_old[OF this] nth_old[OF i(1)] i(4) j show "key (?l ! i) < key (?l ! j)" by simp
    qed
    moreover have "i < length ?l" using i(1) by simp
    ultimately show ?thesis by blast
  qed
qed

subsection \<open>The candidates of a job\<close>

lemma search_and_append_result:
  assumes ad: "encoder_adapter mk work_in"
      and dirs: "fst work_in \<noteq> SearchDir (tmp_next w)"
  shows "\<exists>cands' w'.
           search_and_append e f mk work_in lo hi a bb cands w = (Inr cands', w') \<and>
           (\<forall>p. fst p \<noteq> SearchDir (tmp_next w) \<longrightarrow> files w' p = files w p) \<and>
           tmp_next w' = Suc (tmp_next w) \<and>
           (cands' = cands \<and>
              fst (binary_search_quality mk (metrics_fn e) work_in lo hi a bb w) = Inr SearchFailure \<or>
            (\<exists>q bs. cands' = cands @ [\<lparr>fmt = f, cand_bytes = length bs,
                                        cand_path = (SearchDir (tmp_next w), best_name q), cand_q = q\<rparr>] \<and>
                     files w' (SearchDir (tmp_next w), best_name q) = Some bs))"
proof -
  let ?P = "quality_passes mk (metrics_fn e) work_in a bb w"
  from binary_search_quality_bisect[OF ad dirs dirs, of e lo hi a bb]
  obtain r n w' where r:
    "binary_search_quality mk (metrics_fn e) work_in lo hi a bb w = (Inr r, n, w')"
    "\<forall>p. fst p \<noteq> SearchDir (tmp_next w) \<longrightarrow> files w' p = files w p"
    "tmp_next w' = Suc (tmp_next w)"
    "case fst (bisect ?P lo hi None 0) of
       None \<Rightarrow> r = SearchFailure
     | Some q \<Rightarrow> (\<exists>m. r = SearchSuccess q (SearchDir (tmp_next w), best_name q) m) \<and>
                 files w' (SearchDir (tmp_next w), best_name q) \<noteq> None"
    by blast
  show ?thesis
  proof (cases "fst (bisect ?P lo hi None 0)")
    case None
    with r(4) have "r = SearchFailure" by simp
    with r(1) have "search_and_append e f mk work_in lo hi a bb cands w = (Inr cands, w')"
      and "fst (binary_search_quality mk (metrics_fn e) work_in lo hi a bb w) = Inr SearchFailure"
      by (simp_all add: search_and_append_def)
    with r(2,3) show ?thesis by blast
  next
    case (Some q)
    with r(4) obtain m bs where m: "r = SearchSuccess q (SearchDir (tmp_next w), best_name q) m"
      and bs: "files w' (SearchDir (tmp_next w), best_name q) = Some bs"
      by auto
    with r(1) have "search_and_append e f mk work_in lo hi a bb cands w =
        (Inr (cands @ [\<lparr>fmt = f, cand_bytes = length bs,
                        cand_path = (SearchDir (tmp_next w), best_name q), cand_q = q\<rparr>]), w')"
      by (simp add: search_and_append_def stat_size_def)
    with r(2,3) bs show ?thesis by blast
  qed
qed

lemma cands_stored_step:
  assumes st: "cands_stored k w cands"
      and fr: "\<forall>p. fst p \<noteq> SearchDir (tmp_next w) \<longrightarrow> files w' p = files w p"
      and tn: "tmp_next w' = Suc (tmp_next w)"
  shows "cands_stored k w' cands"
  unfolding cands_stored_def
proof
  fix c assume "c \<in> set cands"
  with st obtain n bs where c: "k \<le> n" "n < tmp_next w"
    "cand_path c = (SearchDir n, best_name (cand_q c))" "files w (cand_path c) = Some bs"
    "cand_bytes c = length bs"
    unfolding cands_stored_def by blast
  from c(2,3) have "fst (cand_path c) \<noteq> SearchDir (tmp_next w)" by simp
  with fr c(4) have "files w' (cand_path c) = Some bs" by metis
  with c tn show "\<exists>n bs. k \<le> n \<and> n < tmp_next w' \<and> cand_path c = (SearchDir n, best_name (cand_q c)) \<and>
               files w' (cand_path c) = Some bs \<and> cand_bytes c = length bs"
    by (intro exI[of _ n] exI[of _ bs]) simp
qed

lemma cands_stored_new:
  assumes "files w' (SearchDir n, best_name q) = Some bs" "k \<le> n" "n < tmp_next w'"
      and "cands_stored k w' cands"
  shows "cands_stored k w'
           (cands @ [\<lparr>fmt = f, cand_bytes = length bs, cand_path = (SearchDir n, best_name q), cand_q = q\<rparr>])"
  using assms unfolding cands_stored_def by auto

text \<open>One optional pipeline, as \<^verbatim>\<open>process_file\<close> runs it.\<close>

lemma pipeline_step:
  assumes ad: "encoder_adapter mk work_in"
      and dirs: "\<forall>n. fst work_in \<noteq> SearchDir n"
      and st: "cands_stored k w cands" and k: "k \<le> tmp_next w"
      and sub: "subseq (map fmt cands) fs"
  shows "\<exists>cands' w'.
           (if cond then search_and_append e f mk work_in lo hi a bb cands w else (Inr cands, w)) =
             (Inr cands', w') \<and>
           (\<forall>p. (\<forall>n. fst p \<noteq> SearchDir n) \<longrightarrow> files w' p = files w p) \<and>
           tmp_next w \<le> tmp_next w' \<and> cands_stored k w' cands' \<and>
           subseq (map fmt cands') (fs @ [f]) \<and>
           (cands' = [] \<longrightarrow> cands = [])"
proof (cases cond)
  case False
  with st subseq_rev_drop_many[OF sub, of "[f]"] show ?thesis by simp
next
  case True
  from dirs have d: "fst work_in \<noteq> SearchDir (tmp_next w)" by blast
  from search_and_append_result[OF ad d, of e f lo hi a bb cands]
  obtain cands' w' where r:
    "search_and_append e f mk work_in lo hi a bb cands w = (Inr cands', w')"
    "\<forall>p. fst p \<noteq> SearchDir (tmp_next w) \<longrightarrow> files w' p = files w p"
    "tmp_next w' = Suc (tmp_next w)"
    "cands' = cands \<or>
     (\<exists>q bs. cands' = cands @ [\<lparr>fmt = f, cand_bytes = length bs,
                                 cand_path = (SearchDir (tmp_next w), best_name q), cand_q = q\<rparr>] \<and>
              files w' (SearchDir (tmp_next w), best_name q) = Some bs)"
    by blast
  have old: "cands_stored k w' cands" using st r(2,3) by (rule cands_stored_step)
  have fr: "\<forall>p. (\<forall>n. fst p \<noteq> SearchDir n) \<longrightarrow> files w' p = files w p" using r(2) by blast
  from r(4) have "cands_stored k w' cands' \<and> subseq (map fmt cands') (fs @ [f]) \<and> (cands' = [] \<longrightarrow> cands = [])"
  proof
    assume "cands' = cands"
    with old subseq_rev_drop_many[OF sub, of "[f]"] show ?thesis by simp
  next
    assume "\<exists>q bs. cands' = cands @ [\<lparr>fmt = f, cand_bytes = length bs,
                                 cand_path = (SearchDir (tmp_next w), best_name q), cand_q = q\<rparr>] \<and>
              files w' (SearchDir (tmp_next w), best_name q) = Some bs"
    then obtain q bs where n: "cands' = cands @ [\<lparr>fmt = f, cand_bytes = length bs,
                                 cand_path = (SearchDir (tmp_next w), best_name q), cand_q = q\<rparr>]"
      "files w' (SearchDir (tmp_next w), best_name q) = Some bs" by blast
    from cands_stored_new[OF n(2) k _ old, of f] r(3) n(1) have "cands_stored k w' cands'" by simp
    moreover from sub n(1) have "subseq (map fmt cands') (fs @ [f])"
      by (simp add: list_emb_append_mono)
    ultimately show ?thesis using n(1) by simp
  qed
  with r(1,3) fr True show ?thesis by simp
qed

lemma smart_resize_width_only_facts:
  assumes "smart_resize_width_only e in_path out w = ((rz, work_in), w1)"
  shows "work_in = out \<or> fst work_in = Elsewhere"
    and "tmp_next w1 = tmp_next w"
    and "\<forall>p. p \<noteq> out \<longrightarrow> files w1 p = files w p"
  using assms
  by (auto simp: smart_resize_width_only_def shutil_copy2_def
      split: option.splits resize_outcome.splits if_splits)

lemma collect_candidates_result:
  assumes wd: "\<forall>n. workdir \<noteq> SearchDir n"
  shows "\<exists>cands w1.
           collect_candidates e in_path a b workdir w = (Inr cands, w1) \<and>
           (\<forall>p. (\<forall>n. fst p \<noteq> SearchDir n) \<and> p \<noteq> (workdir, snd in_path) \<longrightarrow>
                files w1 p = files w p) \<and>
           tmp_next w \<le> tmp_next w1 \<and> cands_stored (tmp_next w) w1 cands \<and>
           subseq (map fmt cands) [''jpg'', ''webp'', ''avif'']"
proof -
  let ?out = "(workdir, snd in_path)"
  obtain rz work_in w1 where rs: "smart_resize_width_only e in_path ?out w = ((rz, work_in), w1)"
    by (cases "smart_resize_width_only e in_path ?out w") auto
  note f = smart_resize_width_only_facts[OF rs]
  from f(1) wd have dirs: "\<forall>n. fst work_in \<noteq> SearchDir n" by auto
  let ?k = "tmp_next w"
  have st0: "cands_stored ?k w1 []" by (simp add: cands_stored_def)
  have sub0: "subseq (map fmt ([] :: candidate list)) []" by simp
  have k1: "?k \<le> tmp_next w1" using f(2) by simp
  from pipeline_step[OF make_jpeg_adapter[of e b a work_in] dirs st0 k1 sub0,
      where cond = "mode a = Jpeg \<or> mode a = Best" and e = e and f = "''jpg''"
        and lo = "min_q a" and hi = "max_q a" and a = a and bb = "bin_butter b"]
  obtain c1 w2 where s1:
    "(if mode a = Jpeg \<or> mode a = Best
      then search_and_append e ''jpg'' (make_jpeg e b a work_in) work_in
             (min_q a) (max_q a) a (bin_butter b) [] w1
      else (Inr [], w1)) = (Inr c1, w2)"
    "\<forall>p. (\<forall>n. fst p \<noteq> SearchDir n) \<longrightarrow> files w2 p = files w1 p"
    "tmp_next w1 \<le> tmp_next w2" "cands_stored ?k w2 c1" "subseq (map fmt c1) ([] @ [''jpg''])"
    by blast
  have k2: "?k \<le> tmp_next w2" using k1 s1(3) by simp
  from pipeline_step[OF make_webp_adapter[of e b work_in] dirs s1(4) k2 s1(5),
      where cond = "mode a = Best" and e = e and f = "''webp''"
        and lo = 10 and hi = 100 and a = a and bb = "bin_butter b"]
  obtain c2 w3 where s2:
    "(if mode a = Best
      then search_and_append e ''webp'' (make_webp e b work_in) work_in 10 100 a (bin_butter b) c1 w2
      else (Inr c1, w2)) = (Inr c2, w3)"
    "\<forall>p. (\<forall>n. fst p \<noteq> SearchDir n) \<longrightarrow> files w3 p = files w2 p"
    "tmp_next w2 \<le> tmp_next w3" "cands_stored ?k w3 c2"
    "subseq (map fmt c2) (([] @ [''jpg'']) @ [''webp''])"
    by blast
  have k3: "?k \<le> tmp_next w3" using k2 s2(3) by simp
  from pipeline_step[OF make_avif_adapter[of e "the (bin_avifenc b)" work_in] dirs s2(4) k3 s2(5),
      where cond = "mode a = Best \<and> bin_avifenc b \<noteq> None" and e = e and f = "''avif''"
        and lo = 10 and hi = 90 and a = a and bb = "bin_butter b"]
  obtain c3 w4 where s3:
    "(if mode a = Best \<and> bin_avifenc b \<noteq> None
      then search_and_append e ''avif'' (make_avif e (the (bin_avifenc b)) work_in) work_in
             10 90 a (bin_butter b) c2 w3
      else (Inr c2, w3)) = (Inr c3, w4)"
    "\<forall>p. (\<forall>n. fst p \<noteq> SearchDir n) \<longrightarrow> files w4 p = files w3 p"
    "tmp_next w3 \<le> tmp_next w4" "cands_stored ?k w4 c3"
    "subseq (map fmt c3) ((([] @ [''jpg'']) @ [''webp'']) @ [''avif''])"
    by blast
  have res: "collect_candidates e in_path a b workdir w = (Inr c3, w4)"
    unfolding collect_candidates_def rs using s1(1) s2(1) s3(1) by simp
  have fr: "files w4 p = files w p" if "\<forall>n. fst p \<noteq> SearchDir n" "p \<noteq> ?out" for p
  proof -
    from that(1) s3(2) have "files w4 p = files w3 p" by blast
    also from that(1) s2(2) have "\<dots> = files w2 p" by blast
    also from that(1) s1(2) have "\<dots> = files w1 p" by blast
    also from that(2) f(3) have "\<dots> = files w p" by blast
    finally show ?thesis .
  qed
  have "tmp_next w \<le> tmp_next w4" using k3 s3(3) by simp
  moreover have "subseq (map fmt c3) [''jpg'', ''webp'', ''avif'']" using s3(5) by simp
  ultimately show ?thesis using res fr s3(4) by blast
qed

subsection \<open>The job: selection and fallback\<close>

lemma collect_candidates_facts:
  assumes wd: "\<forall>n. workdir \<noteq> SearchDir n"
      and cc: "collect_candidates e in_path a b workdir w = (r, w1)"
  shows "\<exists>cands. r = Inr cands \<and> cands_stored (tmp_next w) w1 cands \<and>
                 subseq (map fmt cands) [''jpg'', ''webp'', ''avif'']"
    and "\<forall>n. fst p \<noteq> SearchDir n \<Longrightarrow> p \<noteq> (workdir, snd in_path) \<Longrightarrow> files w1 p = files w p"
    and "tmp_next w \<le> tmp_next w1"
proof -
  from collect_candidates_result[OF wd, of e in_path a b w]
  obtain cands w1' where r: "collect_candidates e in_path a b workdir w = (Inr cands, w1')"
    "\<forall>p. (\<forall>n. fst p \<noteq> SearchDir n) \<and> p \<noteq> (workdir, snd in_path) \<longrightarrow> files w1' p = files w p"
    "tmp_next w \<le> tmp_next w1'" "cands_stored (tmp_next w) w1' cands"
    "subseq (map fmt cands) [''jpg'', ''webp'', ''avif'']"
    by blast
  from r(1) cc have eq: "r = Inr cands" "w1' = w1" by simp_all
  from eq r(4,5) show "\<exists>cands. r = Inr cands \<and> cands_stored (tmp_next w) w1 cands \<and>
                 subseq (map fmt cands) [''jpg'', ''webp'', ''avif'']" by blast
  from eq r(3) show "tmp_next w \<le> tmp_next w1" by simp
  assume "\<forall>n. fst p \<noteq> SearchDir n" "p \<noteq> (workdir, snd in_path)"
  with r(2) eq(2) show "files w1 p = files w p" by blast
qed

lemma process_file_unfold:
  assumes ex: "files w in_path = Some ob"
      and cc: "collect_candidates e in_path a b (WorkDir (tmp_next w))
                 (w\<lparr>tmp_next := Suc (tmp_next w)\<rparr>) = (Inr cands, w1)"
  shows "process_file e in_path out_dir a b w =
     (case select_best in_path out_dir
             \<lparr>res_file = in_path, original_bytes = length ob, res_method = ''none'',
              final_bytes = None, res_error = None\<rparr> cands w1 of
        (Inl x, w2) \<Rightarrow>
          (Inr \<lparr>res_file = in_path, original_bytes = length ob, res_method = ''none'',
                final_bytes = None, res_error = Some (str_exn e x)\<rparr>, rmtree (WorkDir (tmp_next w)) w2)
      | (Inr res', w2) \<Rightarrow> (Inr res', rmtree (WorkDir (tmp_next w)) w2))"
  using ex cc
  by (simp add: process_file_def stat_size_def mkdtemp_def Let_def split: prod.splits sum.splits)

lemma process_file_selects:
  assumes ex: "files w in_path = Some ob"
      and cc: "collect_candidates e in_path a b (WorkDir (tmp_next w))
                 (w\<lparr>tmp_next := Suc (tmp_next w)\<rparr>) = (Inr (c # cs), w1)"
  shows "\<exists>bs. files w1 (cand_path (py_min_by cand_bytes c cs)) = Some bs \<and>
           length bs = cand_bytes (py_min_by cand_bytes c cs) \<and>
           (\<exists>n. cand_path (py_min_by cand_bytes c cs) =
                  (SearchDir n, best_name (cand_q (py_min_by cand_bytes c cs)))) \<and>
           process_file e in_path out_dir a b w =
             (Inr \<lparr>res_file = in_path, original_bytes = length ob,
                   res_method = fmt (py_min_by cand_bytes c cs) @ '' (q='' @
                                str_int (cand_q (py_min_by cand_bytes c cs)) @ '')'',
                   final_bytes = Some (cand_bytes (py_min_by cand_bytes c cs)), res_error = None\<rparr>,
              rmtree (WorkDir (tmp_next w))
                (w1\<lparr>files := ((files w1)(cand_path (py_min_by cand_bytes c cs) := None))
                   ((out_dir, py_stem (snd in_path) @ ''.'' @ fmt (py_min_by cand_bytes c cs)) \<mapsto> bs)\<rparr>))"
proof -
  let ?best = "py_min_by cand_bytes c cs"
  let ?w0 = "w\<lparr>tmp_next := Suc (tmp_next w)\<rparr>"
  have wd: "\<forall>n. WorkDir (tmp_next w) \<noteq> SearchDir n" by simp
  from collect_candidates_facts(1)[OF wd cc]
  have st: "cands_stored (tmp_next ?w0) w1 (c # cs)" by auto
  from py_min_by_first[of c cs cand_bytes] obtain i where
    "i < length (c # cs)" "?best = (c # cs) ! i" by blast
  then have "?best \<in> set (c # cs)" by (metis nth_mem)
  with st obtain n bs where b: "cand_path ?best = (SearchDir n, best_name (cand_q ?best))"
    "files w1 (cand_path ?best) = Some bs" "cand_bytes ?best = length bs"
    unfolding cands_stored_def by blast
  have "select_best in_path out_dir
             \<lparr>res_file = in_path, original_bytes = length ob, res_method = ''none'',
              final_bytes = None, res_error = None\<rparr> (c # cs) w1 =
        (Inr \<lparr>res_file = in_path, original_bytes = length ob,
                   res_method = fmt ?best @ '' (q='' @ str_int (cand_q ?best) @ '')'',
                   final_bytes = Some (cand_bytes ?best), res_error = None\<rparr>,
         w1\<lparr>files := ((files w1)(cand_path ?best := None))
                   ((out_dir, py_stem (snd in_path) @ ''.'' @ fmt ?best) \<mapsto> bs)\<rparr>)"
    using b(2) by (simp add: select_best_def shutil_move_def Let_def)
  with process_file_unfold[OF ex cc, of out_dir] b show ?thesis by auto
qed

lemma process_file_no_candidates:
  assumes ex: "files w in_path = Some ob"
      and cc: "collect_candidates e in_path a b (WorkDir (tmp_next w))
                 (w\<lparr>tmp_next := Suc (tmp_next w)\<rparr>) = (Inr [], w1)"
      and src: "\<forall>n. fst in_path \<noteq> SearchDir n" "fst in_path \<noteq> WorkDir (tmp_next w)"
      and dst: "out_dir \<noteq> fst in_path"
  shows "process_file e in_path out_dir a b w =
           (Inr \<lparr>res_file = in_path, original_bytes = length ob, res_method = ''none'',
                 final_bytes = None, res_error = Some ''No candidates met criteria''\<rparr>,
            rmtree (WorkDir (tmp_next w)) (w1\<lparr>files := (files w1)((out_dir, snd in_path) \<mapsto> ob)\<rparr>))"
proof -
  let ?w0 = "w\<lparr>tmp_next := Suc (tmp_next w)\<rparr>"
  have wd: "\<forall>n. WorkDir (tmp_next w) \<noteq> SearchDir n" by simp
  from src(2) have "in_path \<noteq> (WorkDir (tmp_next w), snd in_path)" by (metis fst_conv)
  from collect_candidates_facts(2)[OF wd cc src(1) this]
  have "files w1 in_path = files ?w0 in_path" .
  with ex have f1: "files w1 in_path = Some ob" by simp
  from dst have ne: "in_path \<noteq> (out_dir, snd in_path)" by (metis fst_conv)
  have "select_best in_path out_dir
             \<lparr>res_file = in_path, original_bytes = length ob, res_method = ''none'',
              final_bytes = None, res_error = None\<rparr> [] w1 =
        (Inr \<lparr>res_file = in_path, original_bytes = length ob, res_method = ''none'',
                 final_bytes = None, res_error = Some ''No candidates met criteria''\<rparr>,
         w1\<lparr>files := (files w1)((out_dir, snd in_path) \<mapsto> ob)\<rparr>)"
    using f1 ne by (simp add: select_best_def shutil_copy2_def)
  with process_file_unfold[OF ex cc, of out_dir] show ?thesis by simp
qed

text \<open>
  Claim C2. \<^verbatim>\<open>min(candidates, key=..)\<close> returns the first entry with the least key.
  In \<^verbatim>\<open>process_file\<close> the list \<^verbatim>\<open>candidates\<close> holds the successful searches in the order
  JPEG, WebP, AVIF, each with the size of its stored artifact; when it is not empty the
  job's result reports an entry whose size is the least of all, and no earlier entry has
  that size.
\<close>

theorem best_of_selects_smallest:
  "(\<exists>i < length (m # xs).
      py_min_by key m xs = (m # xs) ! i \<and>
      (\<forall>x \<in> set (m # xs). key ((m # xs) ! i) \<le> key x) \<and>
      (\<forall>j < i. key ((m # xs) ! i) < key ((m # xs) ! j))) \<and>
   (files w in_path \<noteq> None \<and>
    collect_candidates e in_path a b (WorkDir (tmp_next w)) (w\<lparr>tmp_next := Suc (tmp_next w)\<rparr>) =
      (Inr cands, w1) \<and>
    cands \<noteq> []
    \<longrightarrow>
    subseq (map fmt cands) [''jpg'', ''webp'', ''avif''] \<and>
    (\<forall>c \<in> set cands. \<exists>bs. files w1 (cand_path c) = Some bs \<and> cand_bytes c = length bs) \<and>
    (\<exists>res w' i.
       process_file e in_path out_dir a b w = (Inr res, w') \<and> i < length cands \<and>
       final_bytes res = Some (cand_bytes (cands ! i)) \<and>
       res_method res = fmt (cands ! i) @ '' (q='' @ str_int (cand_q (cands ! i)) @ '')'' \<and>
       res_error res = None \<and>
       (\<forall>c \<in> set cands. cand_bytes (cands ! i) \<le> cand_bytes c) \<and>
       (\<forall>j < i. cand_bytes (cands ! i) < cand_bytes (cands ! j))))"
proof (intro conjI impI)
  show "\<exists>i < length (m # xs).
      py_min_by key m xs = (m # xs) ! i \<and>
      (\<forall>x \<in> set (m # xs). key ((m # xs) ! i) \<le> key x) \<and>
      (\<forall>j < i. key ((m # xs) ! i) < key ((m # xs) ! j))"
    by (rule py_min_by_first)
next
  assume h: "files w in_path \<noteq> None \<and>
    collect_candidates e in_path a b (WorkDir (tmp_next w)) (w\<lparr>tmp_next := Suc (tmp_next w)\<rparr>) =
      (Inr cands, w1) \<and> cands \<noteq> []"
  then obtain ob c cs where ob: "files w in_path = Some ob" and cs: "cands = c # cs"
    by (cases cands) auto
  from h cs have cc: "collect_candidates e in_path a b (WorkDir (tmp_next w))
      (w\<lparr>tmp_next := Suc (tmp_next w)\<rparr>) = (Inr (c # cs), w1)" by simp
  have wd: "\<forall>n. WorkDir (tmp_next w) \<noteq> SearchDir n" by simp
  from collect_candidates_facts(1)[OF wd cc]
  obtain cands' where "Inr (c # cs) = (Inr cands' :: exn + candidate list)"
    "cands_stored (tmp_next (w\<lparr>tmp_next := Suc (tmp_next w)\<rparr>)) w1 cands'"
    "subseq (map fmt cands') [''jpg'', ''webp'', ''avif'']"
    by blast
  then have st: "cands_stored (Suc (tmp_next w)) w1 cands"
    and sub: "subseq (map fmt cands) [''jpg'', ''webp'', ''avif'']"
    unfolding cs by (simp_all del: subseq_Cons2_iff list_emb_code)
  show "subseq (map fmt cands) [''jpg'', ''webp'', ''avif'']" by (rule sub)
  show "\<forall>c \<in> set cands. \<exists>bs. files w1 (cand_path c) = Some bs \<and> cand_bytes c = length bs"
    using st unfolding cands_stored_def by blast
  from py_min_by_first[of c cs cand_bytes] obtain i where i: "i < length (c # cs)"
    "py_min_by cand_bytes c cs = (c # cs) ! i"
    "\<forall>x \<in> set (c # cs). cand_bytes ((c # cs) ! i) \<le> cand_bytes x"
    "\<forall>j < i. cand_bytes ((c # cs) ! i) < cand_bytes ((c # cs) ! j)"
    by blast
  from process_file_selects[OF ob cc, of out_dir] obtain res w' where
    r: "process_file e in_path out_dir a b w = (Inr res, w')"
      "final_bytes res = Some (cand_bytes (py_min_by cand_bytes c cs))"
      "res_method res = fmt (py_min_by cand_bytes c cs) @ '' (q='' @
                         str_int (cand_q (py_min_by cand_bytes c cs)) @ '')''"
      "res_error res = None"
    by force
  show "\<exists>res w' i.
       process_file e in_path out_dir a b w = (Inr res, w') \<and> i < length cands \<and>
       final_bytes res = Some (cand_bytes (cands ! i)) \<and>
       res_method res = fmt (cands ! i) @ '' (q='' @ str_int (cand_q (cands ! i)) @ '')'' \<and>
       res_error res = None \<and>
       (\<forall>c \<in> set cands. cand_bytes (cands ! i) \<le> cand_bytes c) \<and>
       (\<forall>j < i. cand_bytes (cands ! i) < cand_bytes (cands ! j))"
    apply (rule exI[of _ res], rule exI[of _ w'], rule exI[of _ i])
    using r i unfolding cs by simp
qed

text \<open>In the example run with mode \<^verbatim>\<open>best\<close> the JPEG and the WebP search both end at
  quality 52 with 52 bytes: the tie goes to JPEG, the pipeline declared first.\<close>

theorem best_of_selects_smallest_witness:
  "fst (collect_candidates ex_env (InputDir, ''a.png'') (ex_args\<lparr>mode := Best\<rparr>) ex_bins (WorkDir 1)
          (ex_world\<lparr>tmp_next := 2\<rparr>)) =
     Inr [\<lparr>fmt = ''jpg'', cand_bytes = 52, cand_path = (SearchDir 2, ''best_q52.bin''), cand_q = 52\<rparr>,
          \<lparr>fmt = ''webp'', cand_bytes = 52, cand_path = (SearchDir 3, ''best_q52.bin''), cand_q = 52\<rparr>] \<and>
   (\<exists>res. fst (process_file ex_env (InputDir, ''a.png'') OutputDir (ex_args\<lparr>mode := Best\<rparr>)
                 ex_bins ex_world) = Inr res \<and>
          final_bytes res = Some 52 \<and> res_method res = ''jpg (q=52)'' \<and> res_error res = None)"
proof -
  let ?a = "ex_args\<lparr>mode := Best\<rparr>"
  let ?cands = "[\<lparr>fmt = ''jpg'', cand_bytes = 52, cand_path = (SearchDir 2, ''best_q52.bin''), cand_q = 52\<rparr>,
          \<lparr>fmt = ''webp'', cand_bytes = 52, cand_path = (SearchDir 3, ''best_q52.bin''), cand_q = 52\<rparr>]"
  let ?cc = "collect_candidates ex_env (InputDir, ''a.png'') ?a ex_bins (WorkDir 1) (ex_world\<lparr>tmp_next := 2\<rparr>)"
  have c: "fst ?cc = Inr ?cands" by code_simp
  have e1: "WorkDir (tmp_next ex_world) = WorkDir 1" by (simp add: ex_world_def)
  have e2: "ex_world\<lparr>tmp_next := Suc (tmp_next ex_world)\<rparr> = ex_world\<lparr>tmp_next := 2\<rparr>"
    by (simp add: ex_world_def)
  have h: "files ex_world (InputDir, ''a.png'') \<noteq> None \<and>
    collect_candidates ex_env (InputDir, ''a.png'') ?a ex_bins (WorkDir (tmp_next ex_world))
      (ex_world\<lparr>tmp_next := Suc (tmp_next ex_world)\<rparr>) = (Inr ?cands, snd ?cc) \<and> ?cands \<noteq> []"
  proof -
    have "files ex_world (InputDir, ''a.png'') \<noteq> None" by (simp add: ex_world_def)
    moreover have "collect_candidates ex_env (InputDir, ''a.png'') ?a ex_bins (WorkDir (tmp_next ex_world))
      (ex_world\<lparr>tmp_next := Suc (tmp_next ex_world)\<rparr>) = (Inr ?cands, snd ?cc)"
      unfolding e1 e2 by (rule prod_eqI) (simp_all only: fst_conv snd_conv c)
    ultimately show ?thesis by simp
  qed
  from best_of_selects_smallest[where w = ex_world and in_path = "(InputDir, ''a.png'')"
      and e = ex_env and a = ?a and b = ex_bins and cands = ?cands and ?w1.0 = "snd ?cc"
      and out_dir = OutputDir, THEN conjunct2, rule_format, OF h]
  obtain res w' i where r:
    "process_file ex_env (InputDir, ''a.png'') OutputDir ?a ex_bins ex_world = (Inr res, w')"
    "i < length ?cands" "final_bytes res = Some (cand_bytes (?cands ! i))"
    "res_method res = fmt (?cands ! i) @ '' (q='' @ str_int (cand_q (?cands ! i)) @ '')''"
    "res_error res = None"
    "\<forall>j < i. cand_bytes (?cands ! i) < cand_bytes (?cands ! j)"
    by blast
  have "i = 0"
  proof (rule ccontr)
    assume "i \<noteq> 0"
    with r(2) have "i = 1" by simp
    with r(6)[rule_format, of 0] show False by simp
  qed
  moreover have "str_int 52 = ''52''" by code_simp
  ultimately have "final_bytes res = Some 52" "res_method res = ''jpg (q=52)''"
    using r(3,4) by simp_all
  with r(1,5) c show ?thesis by simp
qed

text \<open>
  Claim C8, as stated, fails on the error text: when no pipeline yields a candidate the
  error field is \<^verbatim>\<open>"No candidates met criteria"\<close>, not
  \<^verbatim>\<open>"no pipeline met thresholds"\<close>. In the example run no quality up to 40 passes.
\<close>

theorem all_fail_error_text:
  "fst (process_file ex_env (InputDir, ''a.png'') OutputDir (ex_args\<lparr>max_q := 40\<rparr>) ex_bins ex_world) =
     Inr \<lparr>res_file = (InputDir, ''a.png''), original_bytes = 3, res_method = ''none'',
          final_bytes = None, res_error = Some ''No candidates met criteria''\<rparr> \<and>
   Some ''No candidates met criteria'' \<noteq> Some ''no pipeline met thresholds''"
  by code_simp

lemma process_file_same_dir:
  assumes ex: "files w in_path = Some ob"
      and cc: "collect_candidates e in_path a b (WorkDir (tmp_next w))
                 (w\<lparr>tmp_next := Suc (tmp_next w)\<rparr>) = (Inr [], w1)"
  shows "process_file e in_path (fst in_path) a b w =
           (Inr \<lparr>res_file = in_path, original_bytes = length ob, res_method = ''none'',
                 final_bytes = None, res_error = Some (str_exn e (SameFileError in_path))\<rparr>,
            rmtree (WorkDir (tmp_next w)) w1)"
proof -
  have "select_best in_path (fst in_path)
             \<lparr>res_file = in_path, original_bytes = length ob, res_method = ''none'',
              final_bytes = None, res_error = None\<rparr> [] w1 =
        (Inl (SameFileError in_path), w1)"
    by (simp add: select_best_def shutil_copy2_def)
  with process_file_unfold[OF ex cc, of "fst in_path"] show ?thesis by simp
qed

text \<open>
  Claim C8, amended. When the searches of a job on an existing image yield no candidate,
  \<^verbatim>\<open>process_file\<close> raises nothing and returns a result with method \<^verbatim>\<open>"none"\<close> and no
  final size; afterwards the output directory holds the original bytes under the
  image's own name, and the image is still in place. The error field is
  \<^verbatim>\<open>"No candidates met criteria"\<close> when the output directory is not the image's own
  directory. When it is, \<^verbatim>\<open>shutil.copy2\<close> raises \<^verbatim>\<open>SameFileError\<close>, nothing is copied and
  the error field is the text of that exception. This holds provided the image lies
  neither in a \<^verbatim>\<open>search_\<close> directory nor in the job's \<^verbatim>\<open>work_\<close> directory, and the
  output directory is not that work directory (\<^verbatim>\<open>mkdtemp\<close> creates these directories
  anew).
\<close>

theorem all_pipelines_fail_fallback:
  "files w in_path = Some ob \<and>
   collect_candidates e in_path a b (WorkDir (tmp_next w)) (w\<lparr>tmp_next := Suc (tmp_next w)\<rparr>) =
     (Inr [], w1) \<and>
   (\<forall>n. fst in_path \<noteq> SearchDir n) \<and> fst in_path \<noteq> WorkDir (tmp_next w) \<and>
   out_dir \<noteq> WorkDir (tmp_next w)
   \<longrightarrow>
   (\<exists>w'. process_file e in_path out_dir a b w =
            (Inr \<lparr>res_file = in_path, original_bytes = length ob, res_method = ''none'',
                  final_bytes = None,
                  res_error = Some (if out_dir = fst in_path
                                    then str_exn e (SameFileError in_path)
                                    else ''No candidates met criteria'')\<rparr>, w') \<and>
          files w' (out_dir, snd in_path) = Some ob \<and> files w' in_path = Some ob \<and>
          (out_dir = fst in_path \<longrightarrow> (\<forall>p. fst p = out_dir \<longrightarrow> files w' p = files w p)))"
proof
  assume h: "files w in_path = Some ob \<and>
   collect_candidates e in_path a b (WorkDir (tmp_next w)) (w\<lparr>tmp_next := Suc (tmp_next w)\<rparr>) =
     (Inr [], w1) \<and>
   (\<forall>n. fst in_path \<noteq> SearchDir n) \<and> fst in_path \<noteq> WorkDir (tmp_next w) \<and>
   out_dir \<noteq> WorkDir (tmp_next w)"
  then have ob: "files w in_path = Some ob"
    and cc: "collect_candidates e in_path a b (WorkDir (tmp_next w))
               (w\<lparr>tmp_next := Suc (tmp_next w)\<rparr>) = (Inr [], w1)"
    and src: "\<forall>n. fst in_path \<noteq> SearchDir n" "fst in_path \<noteq> WorkDir (tmp_next w)"
    and dst: "out_dir \<noteq> WorkDir (tmp_next w)"
    by blast+
  have wd: "\<forall>n. WorkDir (tmp_next w) \<noteq> SearchDir n" by simp
  have frame: "files w1 p = files w p"
    if "\<forall>n. fst p \<noteq> SearchDir n" "fst p \<noteq> WorkDir (tmp_next w)" for p
  proof -
    from that(2) have "p \<noteq> (WorkDir (tmp_next w), snd in_path)" by (metis fst_conv)
    from collect_candidates_facts(2)[OF wd cc that(1) this] show ?thesis by simp
  qed
  from frame[OF src] ob have f1: "files w1 in_path = Some ob" by simp
  show "\<exists>w'. process_file e in_path out_dir a b w =
            (Inr \<lparr>res_file = in_path, original_bytes = length ob, res_method = ''none'',
                  final_bytes = None,
                  res_error = Some (if out_dir = fst in_path
                                    then str_exn e (SameFileError in_path)
                                    else ''No candidates met criteria'')\<rparr>, w') \<and>
          files w' (out_dir, snd in_path) = Some ob \<and> files w' in_path = Some ob \<and>
          (out_dir = fst in_path \<longrightarrow> (\<forall>p. fst p = out_dir \<longrightarrow> files w' p = files w p))"
  proof (cases "out_dir = fst in_path")
    case True
    let ?w' = "rmtree (WorkDir (tmp_next w)) w1"
    have keep: "files ?w' p = files w p" if "fst p = out_dir" for p
      using that True src frame[of p] by (simp add: rmtree_def)
    have "files ?w' in_path = Some ob" using keep[of in_path] True ob by simp
    moreover have "(out_dir, snd in_path) = in_path" using True by simp
    ultimately show ?thesis
      using process_file_same_dir[OF ob cc] True keep by auto
  next
    case False
    let ?w' = "rmtree (WorkDir (tmp_next w)) (w1\<lparr>files := (files w1)((out_dir, snd in_path) \<mapsto> ob)\<rparr>)"
    from False have ne: "in_path \<noteq> (out_dir, snd in_path)" by (metis fst_conv)
    have "files ?w' (out_dir, snd in_path) = Some ob"
      using dst by (simp add: rmtree_def)
    moreover have "files ?w' in_path = Some ob"
      using src(2) f1 ne by (simp add: rmtree_def)
    ultimately show ?thesis
      using process_file_no_candidates[OF ob cc src False] False by auto
  qed
qed


text \<open>The example run with no passing quality up to 40: with a separate output directory
  the three bytes of the input are copied there; with the input directory as output
  directory the error is the text of the \<^verbatim>\<open>SameFileError\<close>.\<close>

theorem all_pipelines_fail_fallback_witness:
  "fst (collect_candidates ex_env (InputDir, ''a.png'') (ex_args\<lparr>max_q := 40\<rparr>) ex_bins (WorkDir 1)
          (ex_world\<lparr>tmp_next := 2\<rparr>)) = Inr [] \<and>
   (\<exists>w'. process_file ex_env (InputDir, ''a.png'') OutputDir (ex_args\<lparr>max_q := 40\<rparr>) ex_bins ex_world =
            (Inr \<lparr>res_file = (InputDir, ''a.png''), original_bytes = 3, res_method = ''none'',
                  final_bytes = None, res_error = Some ''No candidates met criteria''\<rparr>, w') \<and>
          files w' (OutputDir, ''a.png'') = Some [1, 2, 3] \<and>
          files w' (InputDir, ''a.png'') = Some [1, 2, 3]) \<and>
   (\<exists>w'. process_file ex_env (InputDir, ''a.png'') InputDir (ex_args\<lparr>max_q := 40\<rparr>) ex_bins ex_world =
            (Inr \<lparr>res_file = (InputDir, ''a.png''), original_bytes = 3, res_method = ''none'',
                  final_bytes = None,
                  res_error = Some (repr_path ex_env (InputDir, ''a.png'') @ '' and '' @
                                    repr_path ex_env (InputDir, ''a.png'') @
                                    '' are the same file'')\<rparr>, w') \<and>
          files w' (InputDir, ''a.png'') = Some [1, 2, 3]) \<and>
   repr_path ex_env (InputDir, ''a.png'') = ''PosixPath'' @ [CHR 0x28] @ quoted ''in/a.png'' @ [CHR 0x29]"
proof -
  let ?a = "ex_args\<lparr>max_q := 40\<rparr>"
  let ?cc = "collect_candidates ex_env (InputDir, ''a.png'') ?a ex_bins (WorkDir 1) (ex_world\<lparr>tmp_next := 2\<rparr>)"
  have c: "fst ?cc = Inr []" by code_simp
  have e1: "WorkDir (tmp_next ex_world) = WorkDir 1" by (simp add: ex_world_def)
  have e2: "ex_world\<lparr>tmp_next := Suc (tmp_next ex_world)\<rparr> = ex_world\<lparr>tmp_next := 2\<rparr>"
    by (simp add: ex_world_def)
  have f: "files ex_world (InputDir, ''a.png'') = Some [1, 2, 3]" by (simp add: ex_world_def)
  have cc: "collect_candidates ex_env (InputDir, ''a.png'') ?a ex_bins (WorkDir (tmp_next ex_world))
      (ex_world\<lparr>tmp_next := Suc (tmp_next ex_world)\<rparr>) = (Inr [], snd ?cc)"
    unfolding e1 e2 by (rule prod_eqI) (simp_all only: fst_conv snd_conv c)
  have h: "files ex_world (InputDir, ''a.png'') = Some [1, 2, 3] \<and>
    collect_candidates ex_env (InputDir, ''a.png'') ?a ex_bins (WorkDir (tmp_next ex_world))
      (ex_world\<lparr>tmp_next := Suc (tmp_next ex_world)\<rparr>) = (Inr [], snd ?cc) \<and>
    (\<forall>n. fst (InputDir, ''a.png'') \<noteq> SearchDir n) \<and>
    fst (InputDir, ''a.png'') \<noteq> WorkDir (tmp_next ex_world) \<and>
    d \<noteq> WorkDir (tmp_next ex_world)" if "d = OutputDir \<or> d = InputDir" for d
    using f cc that by auto
  have r: "repr_path ex_env (InputDir, ''a.png'') =
             ''PosixPath'' @ [CHR 0x28] @ quoted ''in/a.png'' @ [CHR 0x29]"
    by (simp add: repr_path_def ex_env_def ex_path_text_def)
  from all_pipelines_fail_fallback[where w = ex_world and in_path = "(InputDir, ''a.png'')"
      and e = ex_env and a = ?a and b = ex_bins and ?w1.0 = "snd ?cc" and ob = "[1, 2, 3]"
      and out_dir = OutputDir, rule_format, OF h]
  have 1: "\<exists>w'. process_file ex_env (InputDir, ''a.png'') OutputDir ?a ex_bins ex_world =
            (Inr \<lparr>res_file = (InputDir, ''a.png''), original_bytes = 3, res_method = ''none'',
                  final_bytes = None, res_error = Some ''No candidates met criteria''\<rparr>, w') \<and>
          files w' (OutputDir, ''a.png'') = Some [1, 2, 3] \<and>
          files w' (InputDir, ''a.png'') = Some [1, 2, 3]"
    by (simp add: numeral_3_eq_3)
  from all_pipelines_fail_fallback[where w = ex_world and in_path = "(InputDir, ''a.png'')"
      and e = ex_env and a = ?a and b = ex_bins and ?w1.0 = "snd ?cc" and ob = "[1, 2, 3]"
      and out_dir = InputDir, rule_format, OF h]
  have 2: "\<exists>w'. process_file ex_env (InputDir, ''a.png'') InputDir ?a ex_bins ex_world =
            (Inr \<lparr>res_file = (InputDir, ''a.png''), original_bytes = 3, res_method = ''none'',
                  final_bytes = None,
                  res_error = Some (repr_path ex_env (InputDir, ''a.png'') @ '' and '' @
                                    repr_path ex_env (InputDir, ''a.png'') @
                                    '' are the same file'')\<rparr>, w') \<and>
          files w' (InputDir, ''a.png'') = Some [1, 2, 3]"
    by (auto simp add: numeral_3_eq_3 str_exn_def)
  from c 1 2 r show ?thesis by blast
qed

text \<open>
  Claim C3 does not hold of the code: \<^verbatim>\<open>binary_search_quality\<close> creates its own
  directory with \<^verbatim>\<open>mkdtemp(prefix="search_")\<close> and never removes it (its \<^verbatim>\<open>finally\<close>
  clause is \<^verbatim>\<open>pass\<close>), and \<^verbatim>\<open>process_file\<close> removes only its work directory. In the
  example run with mode \<^verbatim>\<open>best\<close> the JPEG candidate is promoted to \<^verbatim>\<open>a.jpg\<close>, and
  afterwards the JPEG search directory still holds the rejected candidate \<^verbatim>\<open>q51.tmp\<close>
  and the superseded candidate \<^verbatim>\<open>q62.tmp\<close>, and the WebP search directory still holds
  the losing \<^verbatim>\<open>best_q52.bin\<close>. When no quality passes (range 30 to 40) the candidates
  \<^verbatim>\<open>q35.tmp\<close> and \<^verbatim>\<open>q40.tmp\<close> stay behind as well.
\<close>

theorem search_candidates_left_behind:
  "(let w' = snd (process_file ex_env (InputDir, ''a.png'') OutputDir (ex_args\<lparr>mode := Best\<rparr>)
                   ex_bins ex_world)
    in files w' (OutputDir, ''a.jpg'') = Some (replicate 52 7) \<and>
       files w' (SearchDir 2, ''q51.tmp'') = Some (replicate 51 7) \<and>
       files w' (SearchDir 2, ''q62.tmp'') = Some (replicate 62 7) \<and>
       files w' (SearchDir 3, ''best_q52.bin'') = Some (replicate 52 7)) \<and>
   (let w' = snd (process_file ex_env (InputDir, ''a.png'') OutputDir (ex_args\<lparr>max_q := 40\<rparr>)
                   ex_bins ex_world)
    in files w' (SearchDir 2, ''q35.tmp'') = Some (replicate 35 7) \<and>
       files w' (SearchDir 2, ''q40.tmp'') = Some (replicate 40 7))"
  by code_simp


text \<open>
  Claim C6 does not hold of the code. In \<^verbatim>\<open>hybrid_perceptual.py\<close>, \<^verbatim>\<open>process_file\<close> calls
  \<^verbatim>\<open>in_path.stat()\<close> (and \<^verbatim>\<open>mkdtemp\<close>) before its \<^verbatim>\<open>try\<close>, and \<^verbatim>\<open>run\<close> appends
  \<^verbatim>\<open>fut.result()\<close> without a handler: a batch that lists a name \<^verbatim>\<open>stat\<close> cannot follow
  makes \<^verbatim>\<open>run\<close> raise \<^verbatim>\<open>FileNotFoundError\<close>, and no report is written although \<^verbatim>\<open>a.png\<close>
  was processed. In \<^verbatim>\<open>perceptual.py\<close>, \<^verbatim>\<open>run\<close> catches the exception of a job and only
  logs it: the batch completes, but the results hold no record for the failed file; and
  without OpenCV every job raises \<^verbatim>\<open>TypeError\<close> (\<^verbatim>\<open>None >= ssim_threshold\<close>), so the
  results are empty.
\<close>

theorem batch_loses_failed_jobs:
  "fst (run ex_env ex_batch OutputDir ex_args ex_bins ex_world) =
     Uncaught (FileNotFoundError (InputDir, ''gone.png'')) \<and>
   files (snd (run ex_env ex_batch OutputDir ex_args ex_bins ex_world)) (OutputDir, ''a.jpg'') =
     Some (replicate 52 7) \<and>
   fst (perceptual_run ex_cjpeg ex_batch OutputDir ex_pargs ex_cbins ex_world) =
     Results [\<lparr>p_file = (InputDir, ''a.png''), p_original_size = Some 3, p_final_size = Some 70,
               p_method = Some (JpegQSsim 70 (Fin (99 / 100))),
               p_output_file = Some ''a_optim.jpg'', p_error = None\<rparr>] \<and>
   fst (perceptual_run (ex_cjpeg\<lparr>have_cv2 := False\<rparr>) ex_batch OutputDir ex_pargs ex_cbins ex_world) =
     Results [] \<and>
   length ex_batch = 2"
  by code_simp

text \<open>
  Claim C9, as stated, fails for \<^verbatim>\<open>perceptual.py\<close>: the output keeps the name of the
  winner's temporary file, and the JPEG pipeline writes \<^verbatim>\<open><stem>_optim.jpg\<close>. In the
  example run the JPEG candidate of \<^verbatim>\<open>a.png\<close> wins and the output is \<^verbatim>\<open>a_optim.jpg\<close>;
  no file \<^verbatim>\<open>a.jpg\<close> is written.
\<close>

theorem perceptual_output_name:
  "fst (perceptual_process_file ex_cjpeg (InputDir, ''a.png'') OutputDir ex_pargs ex_cbins ex_world) =
     Inr \<lparr>p_file = (InputDir, ''a.png''), p_original_size = Some 3, p_final_size = Some 70,
          p_method = Some (JpegQSsim 70 (Fin (99 / 100))),
          p_output_file = Some ''a_optim.jpg'', p_error = None\<rparr> \<and>
   files (snd (perceptual_process_file ex_cjpeg (InputDir, ''a.png'') OutputDir ex_pargs ex_cbins
                 ex_world)) (OutputDir, ''a_optim.jpg'') = Some (replicate 70 7) \<and>
   files (snd (perceptual_process_file ex_cjpeg (InputDir, ''a.png'') OutputDir ex_pargs ex_cbins
                 ex_world)) (OutputDir, ''a.jpg'') = None \<and>
   py_stem ''a.png'' @ ''.jpg'' = ''a.jpg''"
  by code_simp

lemma fmt_of_candidates:
  assumes "subseq (map fmt cands) [''jpg'', ''webp'', ''avif'']" and "c \<in> set cands"
  shows "fmt c \<in> {''jpg'', ''webp'', ''avif''}"
proof -
  from assms(2) have "fmt c \<in> set (map fmt cands)" by simp
  with list_emb_set[OF assms(1)] obtain y where "y \<in> set [''jpg'', ''webp'', ''avif'']" "fmt c = y"
    by blast
  then show ?thesis by simp
qed

text \<open>
  Claim C9, amended. In \<^verbatim>\<open>hybrid_perceptual.py\<close>, when the searches of a job on an existing
  image yield at least one candidate, \<^verbatim>\<open>process_file\<close> reports no error and writes exactly
  one file to the output directory: the winner's bytes, under the name
  \<^verbatim>\<open><stem>.<fmt>\<close> made of the stem of the input's name and the winning pipeline's
  format, which is \<^verbatim>\<open>jpg\<close>, \<^verbatim>\<open>webp\<close> or \<^verbatim>\<open>avif\<close>; every other file of the output
  directory is as before. This holds provided the output directory is neither a
  \<^verbatim>\<open>search_\<close> directory nor the job's \<^verbatim>\<open>work_\<close> directory (\<^verbatim>\<open>mkdtemp\<close> creates these
  directories anew).
\<close>

theorem hybrid_output_name:
  "files w in_path \<noteq> None \<and>
   collect_candidates e in_path a b (WorkDir (tmp_next w)) (w\<lparr>tmp_next := Suc (tmp_next w)\<rparr>) =
     (Inr cands, w1) \<and>
   cands \<noteq> [] \<and> (\<forall>n. out_dir \<noteq> SearchDir n) \<and> out_dir \<noteq> WorkDir (tmp_next w)
   \<longrightarrow>
   (let best = py_min_by cand_bytes (hd cands) (tl cands);
        out_path = (out_dir, py_stem (snd in_path) @ ''.'' @ fmt best)
    in fmt best \<in> {''jpg'', ''webp'', ''avif''} \<and>
       (\<exists>res w' bs.
          process_file e in_path out_dir a b w = (Inr res, w') \<and>
          res_error res = None \<and>
          res_method res = fmt best @ '' (q='' @ str_int (cand_q best) @ '')'' \<and>
          final_bytes res = Some (length bs) \<and>
          files w1 (cand_path best) = Some bs \<and>
          files w' out_path = Some bs \<and>
          (\<forall>p. fst p = out_dir \<and> p \<noteq> out_path \<longrightarrow> files w' p = files w p)))"
proof
  assume h: "files w in_path \<noteq> None \<and>
   collect_candidates e in_path a b (WorkDir (tmp_next w)) (w\<lparr>tmp_next := Suc (tmp_next w)\<rparr>) =
     (Inr cands, w1) \<and>
   cands \<noteq> [] \<and> (\<forall>n. out_dir \<noteq> SearchDir n) \<and> out_dir \<noteq> WorkDir (tmp_next w)"
  then obtain ob c cs where ob: "files w in_path = Some ob" and cs: "cands = c # cs"
    by (cases cands) auto
  from h cs have cc: "collect_candidates e in_path a b (WorkDir (tmp_next w))
               (w\<lparr>tmp_next := Suc (tmp_next w)\<rparr>) = (Inr (c # cs), w1)"
    and od: "\<forall>n. out_dir \<noteq> SearchDir n" "out_dir \<noteq> WorkDir (tmp_next w)"
    by simp_all
  let ?best = "py_min_by cand_bytes c cs"
  let ?out = "(out_dir, py_stem (snd in_path) @ ''.'' @ fmt ?best)"
  have wd: "\<forall>n. WorkDir (tmp_next w) \<noteq> SearchDir n" by simp
  from collect_candidates_facts(1)[OF wd cc]
  obtain cands' where "Inr (c # cs) = (Inr cands' :: exn + candidate list)"
    "subseq (map fmt cands') [''jpg'', ''webp'', ''avif'']"
    by blast
  then have sub: "subseq (map fmt (c # cs)) [''jpg'', ''webp'', ''avif'']"
    by (simp del: subseq_Cons2_iff list_emb_code)
  from py_min_by_first[of c cs cand_bytes] obtain i where
    "i < length (c # cs)" "?best = (c # cs) ! i" by blast
  then have mem: "?best \<in> set (c # cs)" by (metis nth_mem)
  from fmt_of_candidates[OF sub mem] have f: "fmt ?best \<in> {''jpg'', ''webp'', ''avif''}" .
  from process_file_selects[OF ob cc, of out_dir]
  obtain bs n where b: "files w1 (cand_path ?best) = Some bs" "length bs = cand_bytes ?best"
    "cand_path ?best = (SearchDir n, best_name (cand_q ?best))"
    and pf: "process_file e in_path out_dir a b w =
             (Inr \<lparr>res_file = in_path, original_bytes = length ob,
                   res_method = fmt ?best @ '' (q='' @ str_int (cand_q ?best) @ '')'',
                   final_bytes = Some (cand_bytes ?best), res_error = None\<rparr>,
              rmtree (WorkDir (tmp_next w))
                (w1\<lparr>files := ((files w1)(cand_path ?best := None))(?out \<mapsto> bs)\<rparr>))"
    by blast
  let ?w' = "rmtree (WorkDir (tmp_next w))
                (w1\<lparr>files := ((files w1)(cand_path ?best := None))(?out \<mapsto> bs)\<rparr>)"
  have o: "files ?w' ?out = Some bs" using od(2) by (simp add: rmtree_def)
  have fr: "files ?w' p = files w p" if "fst p = out_dir" "p \<noteq> ?out" for p
  proof -
    from that(1) od(1) have ns: "\<forall>n. fst p \<noteq> SearchDir n" by simp
    from that(1) od(2) have "p \<noteq> (WorkDir (tmp_next w), snd in_path)" by (metis fst_conv)
    from collect_candidates_facts(2)[OF wd cc ns this]
    have "files w1 p = files w p" by simp
    moreover from ns b(3) have "p \<noteq> cand_path ?best" by (metis fst_conv)
    ultimately show ?thesis using that od(2) by (simp add: rmtree_def)
  qed
  have "\<exists>res w' bs.
          process_file e in_path out_dir a b w = (Inr res, w') \<and>
          res_error res = None \<and>
          res_method res = fmt ?best @ '' (q='' @ str_int (cand_q ?best) @ '')'' \<and>
          final_bytes res = Some (length bs) \<and>
          files w1 (cand_path ?best) = Some bs \<and>
          files w' ?out = Some bs \<and>
          (\<forall>p. fst p = out_dir \<and> p \<noteq> ?out \<longrightarrow> files w' p = files w p)"
    using pf b(1,2) o fr by (intro exI[of _ ?w'] exI[of _ bs] exI conjI) auto
  with f show "let best = py_min_by cand_bytes (hd cands) (tl cands);
        out_path = (out_dir, py_stem (snd in_path) @ ''.'' @ fmt best)
    in fmt best \<in> {''jpg'', ''webp'', ''avif''} \<and>
       (\<exists>res w' bs.
          process_file e in_path out_dir a b w = (Inr res, w') \<and>
          res_error res = None \<and>
          res_method res = fmt best @ '' (q='' @ str_int (cand_q best) @ '')'' \<and>
          final_bytes res = Some (length bs) \<and>
          files w1 (cand_path best) = Some bs \<and>
          files w' out_path = Some bs \<and>
          (\<forall>p. fst p = out_dir \<and> p \<noteq> out_path \<longrightarrow> files w' p = files w p))"
    unfolding cs Let_def list.sel by blast
qed


text \<open>In the example run with mode \<^verbatim>\<open>best\<close> the JPEG candidate wins: the output directory
  receives \<^verbatim>\<open>a.jpg\<close> with its 52 bytes, and no \<^verbatim>\<open>a.webp\<close>.\<close>

theorem hybrid_output_name_witness:
  "fst (collect_candidates ex_env (InputDir, ''a.png'') (ex_args\<lparr>mode := Best\<rparr>) ex_bins (WorkDir 1)
          (ex_world\<lparr>tmp_next := 2\<rparr>)) =
     Inr [\<lparr>fmt = ''jpg'', cand_bytes = 52, cand_path = (SearchDir 2, ''best_q52.bin''), cand_q = 52\<rparr>,
          \<lparr>fmt = ''webp'', cand_bytes = 52, cand_path = (SearchDir 3, ''best_q52.bin''), cand_q = 52\<rparr>] \<and>
   (\<exists>res w' bs. process_file ex_env (InputDir, ''a.png'') OutputDir (ex_args\<lparr>mode := Best\<rparr>)
                   ex_bins ex_world = (Inr res, w') \<and>
                 res_error res = None \<and> res_method res = ''jpg (q=52)'' \<and>
                 final_bytes res = Some 52 \<and> length bs = 52 \<and>
                 files w' (OutputDir, ''a.jpg'') = Some bs \<and>
                 files w' (OutputDir, ''a.webp'') = None)"
proof -
  let ?a = "ex_args\<lparr>mode := Best\<rparr>"
  let ?c1 = "\<lparr>fmt = ''jpg'', cand_bytes = 52, cand_path = (SearchDir 2, ''best_q52.bin''), cand_q = 52\<rparr>"
  let ?c2 = "\<lparr>fmt = ''webp'', cand_bytes = 52, cand_path = (SearchDir 3, ''best_q52.bin''), cand_q = 52\<rparr>"
  let ?cands = "[?c1, ?c2]"
  let ?cc = "collect_candidates ex_env (InputDir, ''a.png'') ?a ex_bins (WorkDir 1) (ex_world\<lparr>tmp_next := 2\<rparr>)"
  have c: "fst ?cc = Inr ?cands" by code_simp
  have e1: "WorkDir (tmp_next ex_world) = WorkDir 1" by (simp add: ex_world_def)
  have e2: "ex_world\<lparr>tmp_next := Suc (tmp_next ex_world)\<rparr> = ex_world\<lparr>tmp_next := 2\<rparr>"
    by (simp add: ex_world_def)
  have cc: "collect_candidates ex_env (InputDir, ''a.png'') ?a ex_bins (WorkDir (tmp_next ex_world))
      (ex_world\<lparr>tmp_next := Suc (tmp_next ex_world)\<rparr>) = (Inr ?cands, snd ?cc)"
    unfolding e1 e2 by (rule prod_eqI) (simp_all only: fst_conv snd_conv c)
  have h: "files ex_world (InputDir, ''a.png'') \<noteq> None \<and>
    collect_candidates ex_env (InputDir, ''a.png'') ?a ex_bins (WorkDir (tmp_next ex_world))
      (ex_world\<lparr>tmp_next := Suc (tmp_next ex_world)\<rparr>) = (Inr ?cands, snd ?cc) \<and>
    ?cands \<noteq> [] \<and> (\<forall>n. OutputDir \<noteq> SearchDir n) \<and> OutputDir \<noteq> WorkDir (tmp_next ex_world)"
    using cc by (simp add: ex_world_def)
  have best: "py_min_by cand_bytes (hd ?cands) (tl ?cands) = ?c1" by simp
  have stem: "py_stem (snd (InputDir, ''a.png'')) @ ''.'' @ fmt ?c1 = ''a.jpg''" by code_simp
  have q: "fmt ?c1 @ '' (q='' @ str_int (cand_q ?c1) @ '')'' = ''jpg (q=52)''" by code_simp
  from hybrid_output_name[where w = ex_world and in_path = "(InputDir, ''a.png'')"
      and e = ex_env and a = ?a and b = ex_bins and cands = ?cands and ?w1.0 = "snd ?cc"
      and out_dir = OutputDir, rule_format, OF h]
  obtain res w' bs where r:
    "process_file ex_env (InputDir, ''a.png'') OutputDir ?a ex_bins ex_world = (Inr res, w')"
    "res_error res = None" "res_method res = ''jpg (q=52)''"
    "final_bytes res = Some (length bs)"
    "files (snd ?cc) (cand_path ?c1) = Some bs"
    "files w' (OutputDir, ''a.jpg'') = Some bs"
    "\<forall>p. fst p = OutputDir \<and> p \<noteq> (OutputDir, ''a.jpg'') \<longrightarrow> files w' p = files ex_world p"
    unfolding Let_def best stem q by blast
  have "files (snd ?cc) (cand_path ?c1) = Some (replicate 52 7)" by code_simp
  with r(5) have len: "length bs = 52" by simp
  from r(7)[rule_format, of "(OutputDir, ''a.webp'')"]
  have "files w' (OutputDir, ''a.webp'') = None" by (simp add: ex_world_def)
  with c r len show ?thesis by auto
qed

end
